theory Spec2Isabelle
  imports Complex_Main "HOL-Library.Product_Lexorder"
begin

section \<open>The hardware control loop of main_controller.py\<close>

text \<open>
  A shallow embedding of \<^verbatim>\<open>run_hardware_loop\<close> and \<^verbatim>\<open>toggle_relay\<close>. One
  execution of the body of the \<^verbatim>\<open>while\<close> loop is one tick. Everything the body reads
  from outside (the settings table, the clocks, the sensors, the input pins, and whether a
  GPIO or database call raises) is a field of the tick's environment; everything it writes
  (the dictionary \<^verbatim>\<open>hardware_state\<close>, the relay pins, the tables) is the world
  that a tick takes and returns.

  Python floats are idealised as reals: the claims are about comparisons and about one
  subtraction, and no rounding, infinity or NaN is modelled.
\<close>

subsection \<open>Pins\<close>

type_synonym pin = nat

definition LIGHTS_PINS :: "pin list" where
  "LIGHTS_PINS = [6, 7, 8, 9, 20, 21]"

definition PUMPS_PINS :: "pin list" where
  "PUMPS_PINS = [27, 5, 10, 11, 12]"

definition EXHAUST_FANS_PINS :: "pin list" where
  "EXHAUST_FANS_PINS = [13, 16]"

definition CIRCULATION_FANS_PINS :: "pin list" where
  "CIRCULATION_FANS_PINS = [19, 26]"

definition FLOAT_SENSORS_PINS :: "pin list" where
  "FLOAT_SENSORS_PINS = [17, 23, 24]"

definition OVERFLOW_SENSOR_PIN :: pin where
  "OVERFLOW_SENSOR_PIN = 25"

definition SOLENOID_RELAY_PIN :: pin where
  "SOLENOID_RELAY_PIN = 22"

subsection \<open>Values of the settings dictionary and the Python built-ins\<close>

text \<open>
  After loading, a setting is a float, an int or the string itself. A time of day is the
  tuple (hour, minute, second, microsecond) that \<^verbatim>\<open>datetime.time\<close> compares
  lexicographically.
\<close>

datatype pyval = PyFloat real | PyInt int | PyStr string

datatype error = ValueError | OverflowError | DatabaseError

type_synonym tod = "nat \<times> nat \<times> nat \<times> nat"

text \<open>
  The built-ins \<^verbatim>\<open>float\<close>, \<^verbatim>\<open>int\<close> and \<^verbatim>\<open>strptime(_, "%H:%M")\<close> applied to a
  string are not code of the repository: the loop takes them as a parameter, \<open>None\<close>
  standing for the \<^verbatim>\<open>ValueError\<close> they raise.
\<close>

record pylib =
  float_of_str :: "string \<Rightarrow> real option"
  int_of_str :: "string \<Rightarrow> int option"
  strptime_HM :: "string \<Rightarrow> tod option"

text \<open>
  An instance of the built-ins on plain ASCII input: an optional sign and decimal digits
  for \<^verbatim>\<open>int\<close>, the same with a fraction for \<^verbatim>\<open>float\<close>, and one or two digits,
  a colon and one or two digits for \<^verbatim>\<open>%H:%M\<close> (hour at most 23, minute at most 59).
  It is used only to run the loop on concrete settings.
\<close>

definition is_digit :: "char \<Rightarrow> bool" where
  "is_digit c = (c \<in> set ''0123456789'')"

definition digit_val :: "char \<Rightarrow> nat" where
  "digit_val c = of_char c - 48"

definition nat_of_digits :: "string \<Rightarrow> nat" where
  "nat_of_digits ds = foldl (\<lambda>n c. 10 * n + digit_val c) 0 ds"

definition all_digits :: "string \<Rightarrow> bool" where
  "all_digits ds = (ds \<noteq> [] \<and> list_all is_digit ds)"

fun split_sign :: "string \<Rightarrow> bool \<times> string" where
  "split_sign [] = (False, [])"
| "split_sign (c # cs) =
     (if c = CHR ''-'' then (True, cs) else if c = CHR ''+'' then (False, cs) else (False, c # cs))"

definition plain_int :: "string \<Rightarrow> int option" where
  "plain_int s =
     (let (neg, ds) = split_sign s in
      if all_digits ds then Some (if neg then - int (nat_of_digits ds) else int (nat_of_digits ds))
      else None)"

definition plain_float :: "string \<Rightarrow> real option" where
  "plain_float s =
     (let (neg, body) = split_sign s;
          ip = takeWhile (\<lambda>c. c \<noteq> CHR ''.'') body;
          rest = dropWhile (\<lambda>c. c \<noteq> CHR ''.'') body;
          fp = (if rest = [] then [] else tl rest)
      in if list_all is_digit ip \<and> list_all is_digit fp \<and> (ip \<noteq> [] \<or> fp \<noteq> [])
         then let m = real (nat_of_digits ip) + real (nat_of_digits fp) / 10 ^ length fp
              in Some (if neg then - m else m)
         else None)"

definition plain_strptime_HM :: "string \<Rightarrow> tod option" where
  "plain_strptime_HM s =
     (let hs = takeWhile (\<lambda>c. c \<noteq> CHR '':'') s;
          rest = dropWhile (\<lambda>c. c \<noteq> CHR '':'') s;
          ms = (if rest = [] then [] else tl rest)
      in if rest \<noteq> [] \<and> all_digits hs \<and> all_digits ms \<and> length hs \<le> 2 \<and> length ms \<le> 2
            \<and> nat_of_digits hs \<le> 23 \<and> nat_of_digits ms \<le> 59
         then Some (nat_of_digits hs, nat_of_digits ms, 0, 0)
         else None)"

definition plain_lib :: pylib where
  "plain_lib = \<lparr>float_of_str = plain_float, int_of_str = plain_int, strptime_HM = plain_strptime_HM\<rparr>"

text \<open>\<^verbatim>\<open>str(n)\<close> for the channel numbers in the names of the mode keys.\<close>

fun str_nat :: "nat \<Rightarrow> string" where
  "str_nat n =
     (if n < 10 then [''0123456789'' ! n]
      else str_nat (n div 10) @ [''0123456789'' ! (n mod 10)])"

declare str_nat.simps [simp del]

subsection \<open>Step 0: loading the settings\<close>

text \<open>
  Lines 209 to 220: a value with a dot is tried as a float, any other value as an int, and
  a value that fails the conversion is kept as the string.
\<close>

definition convert_value :: "pylib \<Rightarrow> string \<Rightarrow> pyval" where
  "convert_value L v =
     (if CHR ''.'' \<in> set v
      then (case float_of_str L v of Some f \<Rightarrow> PyFloat f | None \<Rightarrow> PyStr v)
      else (case int_of_str L v of Some n \<Rightarrow> PyInt n | None \<Rightarrow> PyStr v))"

definition load_settings :: "pylib \<Rightarrow> (string \<rightharpoonup> string) \<Rightarrow> (string \<rightharpoonup> pyval)" where
  "load_settings L rows = (\<lambda>k. map_option (convert_value L) (rows k))"

text \<open>\<^verbatim>\<open>app_settings.get(key, default)\<close>.\<close>

definition get_setting :: "(string \<rightharpoonup> pyval) \<Rightarrow> string \<Rightarrow> pyval \<Rightarrow> pyval" where
  "get_setting app k d = (case app k of None \<Rightarrow> d | Some v \<Rightarrow> v)"

text \<open>
  \<^verbatim>\<open>float(x)\<close> at a place of use: a float is itself, a string is parsed and may
  raise \<^verbatim>\<open>ValueError\<close>, and an int converts unless it rounds beyond the largest double,
  that is unless its magnitude is at least \<open>2 ^ 1024 - 2 ^ 970\<close>, where \<^verbatim>\<open>float\<close> raises
  \<^verbatim>\<open>OverflowError\<close>.
\<close>

definition max_float_int :: int where
  "max_float_int = 2 ^ 1024 - 2 ^ 970"

definition py_float :: "pylib \<Rightarrow> pyval \<Rightarrow> error + real" where
  "py_float L v =
     (case v of
        PyFloat f \<Rightarrow> Inr f
      | PyInt n \<Rightarrow> if \<bar>n\<bar> < max_float_int then Inr (real_of_int n) else Inl OverflowError
      | PyStr s \<Rightarrow> (case float_of_str L s of Some f \<Rightarrow> Inr f | None \<Rightarrow> Inl ValueError))"

text \<open>
  \<^verbatim>\<open>strptime(str(x), "%H:%M").time()\<close>: the text of an int or of a float has no colon,
  so only a value kept as a string can parse.
\<close>

definition parse_time :: "pylib \<Rightarrow> pyval \<Rightarrow> error + tod" where
  "parse_time L v =
     (case v of
        PyStr s \<Rightarrow> (case strptime_HM L s of Some t \<Rightarrow> Inr t | None \<Rightarrow> Inl ValueError)
      | _ \<Rightarrow> Inl ValueError)"

subsection \<open>The relay primitive\<close>

text \<open>
  \<^verbatim>\<open>toggle_relay\<close>: a relay is on when its pin is LOW. \<open>fault pin\<close> says that the GPIO
  access to the pin raises on this tick; the exception is taken at \<^verbatim>\<open>GPIO.input\<close>, the
  first call in the \<^verbatim>\<open>try\<close>, so the relay is left as it was and the function returns
  \<open>False\<close>.
\<close>

definition toggle_relay ::
  "(pin \<Rightarrow> bool) \<Rightarrow> pin \<Rightarrow> bool \<Rightarrow> (pin \<Rightarrow> bool) \<Rightarrow> (pin \<Rightarrow> bool) \<times> bool" where
  "toggle_relay fault p desired_state_on gpio =
     (if fault p then (gpio, False)
      else let is_currently_on = gpio p in
        if desired_state_on \<and> \<not> is_currently_on then (gpio(p := True), True)
        else if \<not> desired_state_on \<and> is_currently_on then (gpio(p := False), False)
        else (gpio, is_currently_on))"

subsection \<open>Step 1: lights\<close>

definition schedule_on :: "tod \<Rightarrow> tod \<Rightarrow> tod \<Rightarrow> bool" where
  "schedule_on current_time on_time off_time =
     (if on_time \<le> off_time then on_time \<le> current_time \<and> current_time < off_time
      else current_time \<ge> on_time \<or> current_time < off_time)"

fun lights_loop ::
  "(string \<rightharpoonup> pyval) \<Rightarrow> (pin \<Rightarrow> bool) \<Rightarrow> bool \<Rightarrow> (nat \<times> pin) list \<Rightarrow> (pin \<Rightarrow> bool) \<Rightarrow> (pin \<Rightarrow> bool)" where
  "lights_loop app fault sched [] gpio = gpio"
| "lights_loop app fault sched ((i, p) # rest) gpio =
     (let mode = get_setting app (''lightsMode'' @ str_nat (i + 1)) (PyStr ''schedule'');
          should_on = (if mode = PyStr ''schedule'' then sched
                       else if mode = PyStr ''on'' then True else False)
      in lights_loop app fault sched rest (fst (toggle_relay fault p should_on gpio)))"

definition lights_schedule :: "pylib \<Rightarrow> (string \<rightharpoonup> pyval) \<Rightarrow> tod \<Rightarrow> error + bool" where
  "lights_schedule L app current_time =
     (case parse_time L (get_setting app ''lightsOnTime'' (PyStr ''06:00'')) of
        Inl x \<Rightarrow> Inl x
      | Inr on_time \<Rightarrow>
          (case parse_time L (get_setting app ''lightsOffTime'' (PyStr ''22:00'')) of
             Inl x \<Rightarrow> Inl x
           | Inr off_time \<Rightarrow> Inr (schedule_on current_time on_time off_time)))"

definition lights_control ::
  "pylib \<Rightarrow> (string \<rightharpoonup> pyval) \<Rightarrow> (pin \<Rightarrow> bool) \<Rightarrow> tod \<Rightarrow> (pin \<Rightarrow> bool) \<Rightarrow> error + (pin \<Rightarrow> bool)" where
  "lights_control L app fault current_time gpio =
     (case lights_schedule L app current_time of
        Inl x \<Rightarrow> Inl x
      | Inr sched \<Rightarrow> Inr (lights_loop app fault sched (enumerate 0 LIGHTS_PINS) gpio))"

subsection \<open>Steps 2 and 3: pumps and circulation fans\<close>

text \<open>
  The two loops are the same code up to the names of the keys: the body is modelled once,
  on the two lists of \<^verbatim>\<open>hardware_state\<close> that it indexes and on the relays. The lists
  have the length of the pin list from start-up on, and the loop only visits its indices.
\<close>

type_synonym cycle_state = "bool list \<times> real list \<times> (pin \<Rightarrow> bool)"

definition cycle_channel ::
  "(pin \<Rightarrow> bool) \<Rightarrow> real \<Rightarrow> real \<Rightarrow> real \<Rightarrow> pyval \<Rightarrow> nat \<Rightarrow> pin \<Rightarrow> cycle_state \<Rightarrow> cycle_state" where
  "cycle_channel fault monotonic_time on_duration off_duration mode i p st =
     (case st of (ons, toggles, gpio) \<Rightarrow>
        if mode = PyStr ''cycle'' then
          (if ons ! i then
             (if monotonic_time - toggles ! i \<ge> on_duration
              then (ons[i := snd (toggle_relay fault p False gpio)], toggles[i := monotonic_time],
                    fst (toggle_relay fault p False gpio))
              else (ons, toggles, gpio))
           else
             (if monotonic_time - toggles ! i \<ge> off_duration
              then (ons[i := snd (toggle_relay fault p True gpio)], toggles[i := monotonic_time],
                    fst (toggle_relay fault p True gpio))
              else (ons, toggles, gpio)))
        else if mode = PyStr ''on'' then (ons, toggles, fst (toggle_relay fault p True gpio))
        else (ons, toggles, fst (toggle_relay fault p False gpio)))"

fun cycle_loop ::
  "(string \<rightharpoonup> pyval) \<Rightarrow> string \<Rightarrow> (pin \<Rightarrow> bool) \<Rightarrow> real \<Rightarrow> real \<Rightarrow> real \<Rightarrow> (nat \<times> pin) list
     \<Rightarrow> cycle_state \<Rightarrow> cycle_state" where
  "cycle_loop app mode_key fault monotonic_time on_duration off_duration [] st = st"
| "cycle_loop app mode_key fault monotonic_time on_duration off_duration ((i, p) # rest) st =
     cycle_loop app mode_key fault monotonic_time on_duration off_duration rest
       (cycle_channel fault monotonic_time on_duration off_duration
          (get_setting app (mode_key @ str_nat (i + 1)) (PyStr ''cycle'')) i p st)"

definition pumps_control ::
  "pylib \<Rightarrow> (string \<rightharpoonup> pyval) \<Rightarrow> (pin \<Rightarrow> bool) \<Rightarrow> real \<Rightarrow> cycle_state \<Rightarrow> error + cycle_state" where
  "pumps_control L app fault monotonic_time st =
     (case py_float L (get_setting app ''pumpOnDuration'' (PyInt 900)) of
        Inl x \<Rightarrow> Inl x
      | Inr pump_on_duration \<Rightarrow>
          (case py_float L (get_setting app ''pumpOffDuration'' (PyInt 2700)) of
             Inl x \<Rightarrow> Inl x
           | Inr pump_off_duration \<Rightarrow>
               Inr (cycle_loop app ''pumpMode'' fault monotonic_time pump_on_duration
                      pump_off_duration (enumerate 0 PUMPS_PINS) st)))"

definition circulation_fans_control ::
  "pylib \<Rightarrow> (string \<rightharpoonup> pyval) \<Rightarrow> (pin \<Rightarrow> bool) \<Rightarrow> real \<Rightarrow> cycle_state \<Rightarrow> error + cycle_state" where
  "circulation_fans_control L app fault monotonic_time st =
     (case py_float L (get_setting app ''circulationFanOnDuration'' (PyInt 1800)) of
        Inl x \<Rightarrow> Inl x
      | Inr circ_on \<Rightarrow>
          (case py_float L (get_setting app ''circulationFanOffDuration'' (PyInt 1800)) of
             Inl x \<Rightarrow> Inl x
           | Inr circ_off \<Rightarrow>
               Inr (cycle_loop app ''circulationFanMode'' fault monotonic_time circ_on circ_off
                      (enumerate 0 CIRCULATION_FANS_PINS) st)))"

subsection \<open>Step 4: sensors and exhaust fans\<close>

text \<open>
  One DHT device per tick: \<open>None\<close> when reading it raises, otherwise the two properties,
  each of which may be \<^verbatim>\<open>None\<close>. Only a device with both values counts.
\<close>

type_synonym dht_read = "(real option \<times> real option) option"

fun valid_readings :: "dht_read list \<Rightarrow> (real \<times> real) list" where
  "valid_readings [] = []"
| "valid_readings (Some (Some temp, Some hum) # ds) = (temp, hum) # valid_readings ds"
| "valid_readings (_ # ds) = valid_readings ds"

definition aggregate :: "dht_read list \<Rightarrow> (real \<times> real) option" where
  "aggregate ds =
     (let temperatures = map fst (valid_readings ds);
          humidities = map snd (valid_readings ds)
      in if temperatures \<noteq> [] \<and> humidities \<noteq> []
         then Some (sum_list temperatures / real (length temperatures),
                    sum_list humidities / real (length humidities))
         else None)"

text \<open>Lines 314 to 318; \<open>exhaust_fans_on\<close> is the list of \<^verbatim>\<open>hardware_state\<close>.\<close>

definition should_auto_on ::
  "bool list \<Rightarrow> real \<Rightarrow> real \<Rightarrow> real \<Rightarrow> real \<Rightarrow> real \<Rightarrow> real \<Rightarrow> bool" where
  "should_auto_on exhaust_fans_on temperature_c humidity temp_high temp_low hum_high hum_low =
     (if temperature_c > temp_high \<or> humidity > hum_high then True
      else if temperature_c < temp_low \<and> humidity < hum_low then False
      else list_ex id exhaust_fans_on)"

fun exhaust_loop ::
  "(string \<rightharpoonup> pyval) \<Rightarrow> (pin \<Rightarrow> bool) \<Rightarrow> bool \<Rightarrow> (nat \<times> pin) list \<Rightarrow> (pin \<Rightarrow> bool) \<Rightarrow> (pin \<Rightarrow> bool)" where
  "exhaust_loop app fault auto_on [] gpio = gpio"
| "exhaust_loop app fault auto_on ((i, p) # rest) gpio =
     (let mode = get_setting app (''exhaustFanMode'' @ str_nat (i + 1)) (PyStr ''auto'');
          desired = (if mode = PyStr ''auto'' then auto_on
                     else if mode = PyStr ''on'' then True else False)
      in exhaust_loop app fault auto_on rest (fst (toggle_relay fault p desired gpio)))"

definition exhaust_fans_control ::
  "pylib \<Rightarrow> (string \<rightharpoonup> pyval) \<Rightarrow> (pin \<Rightarrow> bool) \<Rightarrow> bool list \<Rightarrow> (real \<times> real) option
     \<Rightarrow> (pin \<Rightarrow> bool) \<Rightarrow> error + (pin \<Rightarrow> bool)" where
  "exhaust_fans_control L app fault exhaust_fans_on reading gpio =
     (case reading of
        None \<Rightarrow> Inr gpio
      | Some (temperature_c, humidity) \<Rightarrow>
          (case py_float L (get_setting app ''exhaustFanTempHigh'' (PyFloat 27)) of
             Inl x \<Rightarrow> Inl x
           | Inr temp_high \<Rightarrow>
          (case py_float L (get_setting app ''exhaustFanTempLow'' (PyFloat 23)) of
             Inl x \<Rightarrow> Inl x
           | Inr temp_low \<Rightarrow>
          (case py_float L (get_setting app ''exhaustFanHumidHigh'' (PyFloat 65)) of
             Inl x \<Rightarrow> Inl x
           | Inr hum_high \<Rightarrow>
          (case py_float L (get_setting app ''exhaustFanHumidLow'' (PyFloat 55)) of
             Inl x \<Rightarrow> Inl x
           | Inr hum_low \<Rightarrow>
               Inr (exhaust_loop app fault
                      (should_auto_on exhaust_fans_on temperature_c humidity
                         temp_high temp_low hum_high hum_low)
                      (enumerate 0 EXHAUST_FANS_PINS) gpio))))))"

subsection \<open>Step 5: water level and solenoid\<close>

text \<open>
  The entries of \<^verbatim>\<open>hardware_state\<close> that the loop reads. The lists for the lights and
  the toggle times of the exhaust fans are never read and are left out.
\<close>

record hardware_state =
  pumps_on :: "bool list"
  last_pumps_toggle :: "real list"
  exhaust_fans_on :: "bool list"
  circulation_fans_on :: "bool list"
  last_circulation_fans_toggle :: "real list"
  solenoid_on :: bool
  solenoid_start_time :: "real option"
  water_error :: "string option"
  last_sensor_log_time :: real

text \<open>
  Lines 343 to 376. The result is the state with \<^verbatim>\<open>water_error\<close> written, the value of
  \<^verbatim>\<open>should_solenoid_be_on\<close>, and whether the manual fill asks for the mode to be
  written back to \<^verbatim>\<open>auto\<close>.
\<close>

definition water_logic ::
  "bool \<Rightarrow> bool \<Rightarrow> pyval \<Rightarrow> real \<Rightarrow> real \<Rightarrow> hardware_state \<Rightarrow> hardware_state \<times> bool \<times> bool" where
  "water_logic overflow_detected water_level_ok water_mode max_fill_time monotonic_time h =
     (if overflow_detected then (h\<lparr>water_error := Some ''overflow''\<rparr>, False, False)
      else
        (case (if solenoid_on h then solenoid_start_time h else None) of
           Some start \<Rightarrow>
             (if monotonic_time - start > max_fill_time then
                (if \<not> water_level_ok
                 then (h\<lparr>water_error := Some ''reservoir_empty''\<rparr>, False, False)
                 else (h\<lparr>water_error := Some ''timeout''\<rparr>, False, False))
              else (h, True, False))
         | None \<Rightarrow>
             (if water_mode = PyStr ''auto'' then
                (h, \<not> water_level_ok \<and> water_error h \<noteq> Some ''reservoir_empty'', False)
              else if water_mode = PyStr ''fill'' then (h, True, True)
              else (h, False, False))))"

text \<open>Lines 379 to 385.\<close>

definition update_solenoid ::
  "(pin \<Rightarrow> bool) \<Rightarrow> real \<Rightarrow> bool \<Rightarrow> hardware_state \<times> (pin \<Rightarrow> bool) \<Rightarrow> hardware_state \<times> (pin \<Rightarrow> bool)" where
  "update_solenoid fault monotonic_time should_solenoid_be_on st =
     (case st of (h, gpio) \<Rightarrow>
        let was_on = solenoid_on h;
            now_on = snd (toggle_relay fault SOLENOID_RELAY_PIN should_solenoid_be_on gpio);
            gpio' = fst (toggle_relay fault SOLENOID_RELAY_PIN should_solenoid_be_on gpio);
            h1 = h\<lparr>solenoid_on := now_on\<rparr>
        in if now_on \<and> \<not> was_on
           then (h1\<lparr>solenoid_start_time := Some monotonic_time, water_error := None\<rparr>, gpio')
           else if \<not> now_on \<and> was_on then (h1\<lparr>solenoid_start_time := None\<rparr>, gpio')
           else (h1, gpio'))"

text \<open>
  The water engine of one tick: the decision, then the relay and the bookkeeping. The
  second component says whether the manual fill asks for the mode to be reset.
\<close>

definition water_engine ::
  "(pin \<Rightarrow> bool) \<Rightarrow> bool \<Rightarrow> bool \<Rightarrow> pyval \<Rightarrow> real \<Rightarrow> real \<Rightarrow> hardware_state \<times> (pin \<Rightarrow> bool)
     \<Rightarrow> (hardware_state \<times> (pin \<Rightarrow> bool)) \<times> bool" where
  "water_engine fault overflow water_level_ok water_mode max_fill_time now st =
     (let r = water_logic overflow water_level_ok water_mode max_fill_time now (fst st)
      in (update_solenoid fault now (fst (snd r)) (fst r, snd st), snd (snd r)))"

text \<open>
  \<^verbatim>\<open>UPDATE settings SET value = 'auto' WHERE key = 'waterSystemMode'\<close> changes a row
  only when the row exists.
\<close>

definition reset_water_mode :: "(string \<rightharpoonup> string) \<Rightarrow> (string \<rightharpoonup> string)" where
  "reset_water_mode tab =
     (if tab ''waterSystemMode'' = None then tab else tab(''waterSystemMode'' \<mapsto> ''auto''))"

subsection \<open>Step 6: logging the sensor data\<close>

record reading_row =
  temperature :: real
  humidity :: real
  waterLevelOK :: bool
  floater1 :: bool
  floater2 :: bool
  floater3 :: bool

datatype log_outcome = NotDue | SkippedNoData | Logged | LogFailed

text \<open>
  Lines 388 to 408. \<open>db_fails\<close> says that a call between \<^verbatim>\<open>get_db()\<close> and
  \<^verbatim>\<open>db.commit()\<close> raises: nothing is committed then, and the handler only prints.
  The history table gets one more row. The table \<^verbatim>\<open>latest_state\<close> holds at most the one
  row of key \<^verbatim>\<open>sensors\<close>, and line 398 is an \<^verbatim>\<open>UPDATE\<close> of that row: it overwrites the
  row when it is there and writes nothing when it is not.
\<close>

definition update_latest :: "reading_row \<Rightarrow> reading_row option \<Rightarrow> reading_row option" where
  "update_latest row latest = (case latest of None \<Rightarrow> None | Some old \<Rightarrow> Some row)"

definition log_sensor_data ::
  "bool \<Rightarrow> real \<Rightarrow> (real \<times> real) option \<Rightarrow> bool list
     \<Rightarrow> hardware_state \<times> reading_row list \<times> reading_row option
     \<Rightarrow> (hardware_state \<times> reading_row list \<times> reading_row option) \<times> log_outcome" where
  "log_sensor_data db_fails monotonic_time reading water_levels_ok st =
     (case st of (h, history, latest) \<Rightarrow>
        if monotonic_time - last_sensor_log_time h \<ge> 60 then
          (case reading of
             Some (temperature_c, hum) \<Rightarrow>
               if db_fails then ((h, history, latest), LogFailed)
               else
                 (let row = \<lparr>temperature = temperature_c, humidity = hum,
                             waterLevelOK = list_all id water_levels_ok,
                             floater1 = water_levels_ok ! 0, floater2 = water_levels_ok ! 1,
                             floater3 = water_levels_ok ! 2\<rparr>
                  in ((h\<lparr>last_sensor_log_time := monotonic_time\<rparr>, history @ [row],
                       update_latest row latest), Logged))
           | None \<Rightarrow> ((h, history, latest), SkippedNoData))
        else ((h, history, latest), NotDue))"

subsection \<open>One tick\<close>

record tick_env =
  settings_rows :: "string \<rightharpoonup> string"
  db_load_fails :: bool
  current_time :: tod
  monotonic_time :: real
  relay_fault :: "pin \<Rightarrow> bool"
  dht_reads :: "dht_read list"
  gpio_input_high :: "pin \<Rightarrow> bool"
  db_reset_fails :: bool
  db_log_fails :: bool

record world =
  hw :: hardware_state
  relays :: "pin \<Rightarrow> bool"
  settings_tab :: "string \<rightharpoonup> string"
  sensor_readings :: "reading_row list"
  latest_state :: "reading_row option"
  log_events :: "log_outcome list"

datatype outcome = Completed | Aborted error

text \<open>
  The float switches read LOW when the water is there, the overflow switch reads LOW on
  overflow (lines 335 to 338).
\<close>

definition water_levels_ok :: "tick_env \<Rightarrow> bool list" where
  "water_levels_ok e = map (\<lambda>p. \<not> gpio_input_high e p) FLOAT_SENSORS_PINS"

definition overflow_detected :: "tick_env \<Rightarrow> bool" where
  "overflow_detected e = (\<not> gpio_input_high e OVERFLOW_SENSOR_PIN)"

definition water_control :: "pylib \<Rightarrow> (string \<rightharpoonup> pyval) \<Rightarrow> tick_env \<Rightarrow> world \<Rightarrow> error + world" where
  "water_control L app e w =
     (case py_float L (get_setting app ''maxFillTime'' (PyInt 600)) of
        Inl x \<Rightarrow> Inl x
      | Inr max_fill_time \<Rightarrow>
          (let r = water_engine (relay_fault e) (overflow_detected e)
                     (list_all id (water_levels_ok e))
                     (get_setting app ''waterSystemMode'' (PyStr ''auto''))
                     max_fill_time (monotonic_time e) (hw w, relays w);
               tab = (if snd r \<and> \<not> db_reset_fails e
                      then reset_water_mode (settings_tab w) else settings_tab w)
           in Inr (w\<lparr>hw := fst (fst r), relays := snd (fst r), settings_tab := tab\<rparr>)))"

text \<open>
  Step 6 as the tick runs it. What the step did is visible on the console (nothing printed
  when no write is due, one message for a skipped write, two for an attempted one); the
  world keeps this as \<open>log_events\<close>, one entry for each tick that reached the step.
\<close>

definition log_step :: "tick_env \<Rightarrow> (real \<times> real) option \<Rightarrow> world \<Rightarrow> world" where
  "log_step e reading w =
     (case log_sensor_data (db_log_fails e) (monotonic_time e) reading (water_levels_ok e)
             (hw w, sensor_readings w, latest_state w) of
        ((h, history, latest), res) \<Rightarrow>
          w\<lparr>hw := h, sensor_readings := history, latest_state := latest,
            log_events := log_events w @ [res]\<rparr>)"

definition pumps_step :: "pylib \<Rightarrow> (string \<rightharpoonup> pyval) \<Rightarrow> tick_env \<Rightarrow> world \<Rightarrow> error + world" where
  "pumps_step L app e w =
     (case pumps_control L app (relay_fault e) (monotonic_time e)
             (pumps_on (hw w), last_pumps_toggle (hw w), relays w) of
        Inl x \<Rightarrow> Inl x
      | Inr (ons, toggles, gpio) \<Rightarrow>
          Inr (w\<lparr>hw := (hw w)\<lparr>pumps_on := ons, last_pumps_toggle := toggles\<rparr>, relays := gpio\<rparr>))"

definition circulation_step :: "pylib \<Rightarrow> (string \<rightharpoonup> pyval) \<Rightarrow> tick_env \<Rightarrow> world \<Rightarrow> error + world" where
  "circulation_step L app e w =
     (case circulation_fans_control L app (relay_fault e) (monotonic_time e)
             (circulation_fans_on (hw w), last_circulation_fans_toggle (hw w), relays w) of
        Inl x \<Rightarrow> Inl x
      | Inr (ons, toggles, gpio) \<Rightarrow>
          Inr (w\<lparr>hw := (hw w)\<lparr>circulation_fans_on := ons,
                               last_circulation_fans_toggle := toggles\<rparr>, relays := gpio\<rparr>))"

definition lights_step :: "pylib \<Rightarrow> (string \<rightharpoonup> pyval) \<Rightarrow> tick_env \<Rightarrow> world \<Rightarrow> error + world" where
  "lights_step L app e w =
     (case lights_control L app (relay_fault e) (current_time e) (relays w) of
        Inl x \<Rightarrow> Inl x
      | Inr gpio \<Rightarrow> Inr (w\<lparr>relays := gpio\<rparr>))"

definition exhaust_step :: "pylib \<Rightarrow> (string \<rightharpoonup> pyval) \<Rightarrow> tick_env \<Rightarrow> world \<Rightarrow> error + world" where
  "exhaust_step L app e w =
     (case exhaust_fans_control L app (relay_fault e) (exhaust_fans_on (hw w))
             (aggregate (dht_reads e)) (relays w) of
        Inl x \<Rightarrow> Inl x
      | Inr gpio \<Rightarrow> Inr (w\<lparr>relays := gpio\<rparr>))"

text \<open>
  The body of the \<^verbatim>\<open>while\<close> loop. An exception outside the inner handlers leaves the
  body at once: the world is as the steps before it left it, and the handler at line 413
  prints and sleeps.
\<close>

definition tick :: "pylib \<Rightarrow> tick_env \<Rightarrow> world \<Rightarrow> world \<times> outcome" where
  "tick L e w =
     (if db_load_fails e then (w, Aborted DatabaseError)
      else
        let w0 = w\<lparr>settings_tab := settings_rows e\<rparr>;
            app = load_settings L (settings_rows e)
        in case lights_step L app e w0 of Inl x \<Rightarrow> (w0, Aborted x) | Inr w1 \<Rightarrow>
           (case pumps_step L app e w1 of Inl x \<Rightarrow> (w1, Aborted x) | Inr w2 \<Rightarrow>
           (case circulation_step L app e w2 of Inl x \<Rightarrow> (w2, Aborted x) | Inr w3 \<Rightarrow>
           (case exhaust_step L app e w3 of Inl x \<Rightarrow> (w3, Aborted x) | Inr w4 \<Rightarrow>
           (case water_control L app e w4 of Inl x \<Rightarrow> (w4, Aborted x) | Inr w5 \<Rightarrow>
              (log_step e (aggregate (dht_reads e)) w5, Completed))))))"

text \<open>The loop: one tick after the other, each with its own environment.\<close>

fun run :: "pylib \<Rightarrow> world \<Rightarrow> tick_env list \<Rightarrow> world" where
  "run L w [] = w"
| "run L w (e # es) = run L (fst (tick L e w)) es"

text \<open>
  The world at start-up (lines 143 to 171): every relay off, the three calls of
  \<^verbatim>\<open>time.monotonic()\<close> as parameters. The tables are as \<^verbatim>\<open>init_db\<close> creates them: no
  reading yet, and the row of \<^verbatim>\<open>latest_state\<close> that line 112 inserts, all zero.
\<close>

definition initial_hardware_state :: "real \<Rightarrow> real \<Rightarrow> real \<Rightarrow> hardware_state" where
  "initial_hardware_state t_pumps t_circ t_log =
     \<lparr>pumps_on = replicate (length PUMPS_PINS) False,
      last_pumps_toggle = replicate (length PUMPS_PINS) t_pumps,
      exhaust_fans_on = replicate (length EXHAUST_FANS_PINS) False,
      circulation_fans_on = replicate (length CIRCULATION_FANS_PINS) False,
      last_circulation_fans_toggle = replicate (length CIRCULATION_FANS_PINS) t_circ,
      solenoid_on = False,
      solenoid_start_time = None,
      water_error = None,
      last_sensor_log_time = t_log - 301\<rparr>"

definition initial_world :: "real \<Rightarrow> real \<Rightarrow> real \<Rightarrow> (string \<rightharpoonup> string) \<Rightarrow> world" where
  "initial_world t_pumps t_circ t_log tab =
     \<lparr>hw = initial_hardware_state t_pumps t_circ t_log,
      relays = (\<lambda>p. False),
      settings_tab = tab,
      sensor_readings = [],
      latest_state = Some \<lparr>temperature = 0, humidity = 0, waterLevelOK = False,
                           floater1 = False, floater2 = False, floater3 = False\<rparr>,
      log_events = []\<rparr>"

subsection \<open>Auxiliary notions for the statements\<close>

text \<open>Two hardware states agree on the three water entries.\<close>

definition same_water :: "hardware_state \<Rightarrow> hardware_state \<Rightarrow> bool" where
  "same_water h h' =
     (solenoid_on h' = solenoid_on h \<and> solenoid_start_time h' = solenoid_start_time h
      \<and> water_error h' = water_error h)"

text \<open>The water engine as the tick calls it, once \<^verbatim>\<open>maxFillTime\<close> has parsed to \<open>m\<close>.\<close>

definition engine_of ::
  "pylib \<Rightarrow> tick_env \<Rightarrow> real \<Rightarrow> hardware_state \<times> (pin \<Rightarrow> bool) \<Rightarrow> hardware_state \<times> (pin \<Rightarrow> bool)" where
  "engine_of L e m st =
     fst (water_engine (relay_fault e) (overflow_detected e) (list_all id (water_levels_ok e))
            (get_setting (load_settings L (settings_rows e)) ''waterSystemMode'' (PyStr ''auto''))
            m (monotonic_time e) st)"

text \<open>
  Every conversion of a setting that a tick performs outside a handler succeeds: the two
  times, the four durations, the four thresholds when there is a reading, and the fill time.
\<close>

definition float_ok :: "pylib \<Rightarrow> (string \<rightharpoonup> pyval) \<Rightarrow> string \<Rightarrow> pyval \<Rightarrow> bool" where
  "float_ok L app k d = (\<not> isl (py_float L (get_setting app k d)))"

definition time_ok :: "pylib \<Rightarrow> (string \<rightharpoonup> pyval) \<Rightarrow> string \<Rightarrow> pyval \<Rightarrow> bool" where
  "time_ok L app k d = (\<not> isl (parse_time L (get_setting app k d)))"

definition settings_parse :: "pylib \<Rightarrow> tick_env \<Rightarrow> bool" where
  "settings_parse L e =
     (let app = load_settings L (settings_rows e) in
        time_ok L app ''lightsOnTime'' (PyStr ''06:00'')
      \<and> time_ok L app ''lightsOffTime'' (PyStr ''22:00'')
      \<and> float_ok L app ''pumpOnDuration'' (PyInt 900)
      \<and> float_ok L app ''pumpOffDuration'' (PyInt 2700)
      \<and> float_ok L app ''circulationFanOnDuration'' (PyInt 1800)
      \<and> float_ok L app ''circulationFanOffDuration'' (PyInt 1800)
      \<and> (aggregate (dht_reads e) = None
         \<or> float_ok L app ''exhaustFanTempHigh'' (PyFloat 27)
           \<and> float_ok L app ''exhaustFanTempLow'' (PyFloat 23)
           \<and> float_ok L app ''exhaustFanHumidHigh'' (PyFloat 65)
           \<and> float_ok L app ''exhaustFanHumidLow'' (PyFloat 55))
      \<and> float_ok L app ''maxFillTime'' (PyInt 600))"

text \<open>
  A tick environment for the examples: the settings table as given, noon, two of three
  sensors answering, water at every float switch, no overflow, no failing call.
\<close>

definition example_env :: "(string \<rightharpoonup> string) \<Rightarrow> real \<Rightarrow> tick_env" where
  "example_env rows t =
     \<lparr>settings_rows = rows, db_load_fails = False, current_time = (12, 0, 0, 0),
      monotonic_time = t, relay_fault = (\<lambda>p. False),
      dht_reads = [Some (Some 24, Some 60), None, Some (Some 26, Some 62)],
      gpio_input_high = (\<lambda>p. p = OVERFLOW_SENSOR_PIN),
      db_reset_fails = False, db_log_fails = False\<rparr>"

text \<open>The hardware state in the middle of a fill that started at time \<open>t\<close>.\<close>

definition filling_state :: "real \<Rightarrow> hardware_state" where
  "filling_state t =
     (initial_hardware_state 0 0 0)\<lparr>solenoid_on := True, solenoid_start_time := Some t\<rparr>"

text \<open>The two invariants of the water entries.\<close>

definition fill_inv :: "hardware_state \<Rightarrow> bool" where
  "fill_inv h = ((solenoid_start_time h \<noteq> None) = solenoid_on h)"

definition idle_on_error :: "hardware_state \<Rightarrow> bool" where
  "idle_on_error h = (solenoid_on h \<longrightarrow> water_error h = None)"

text \<open>The example environment with the water below every float switch.\<close>

definition low_water_env :: "real \<Rightarrow> tick_env" where
  "low_water_env t = (example_env Map.empty t)\<lparr>gpio_input_high := (\<lambda>p. True)\<rparr>"

text \<open>The part of the state of a cycle loop that belongs to channel \<open>i\<close> on pin \<open>p\<close>.\<close>

definition channel_view :: "nat \<Rightarrow> pin \<Rightarrow> cycle_state \<Rightarrow> bool \<times> real \<times> bool" where
  "channel_view i p st = (fst st ! i, fst (snd st) ! i, snd (snd st) p)"

definition channel_ok :: "nat \<Rightarrow> cycle_state \<Rightarrow> bool" where
  "channel_ok i st = (i < length (fst st) \<and> i < length (fst (snd st)))"

text \<open>
  Every conversion of a setting that a tick performs before the water step succeeds, so
  that the tick gets as far as line 340.
\<close>

definition reaches_water :: "pylib \<Rightarrow> tick_env \<Rightarrow> bool" where
  "reaches_water L e =
     (let app = load_settings L (settings_rows e) in
        time_ok L app ''lightsOnTime'' (PyStr ''06:00'')
      \<and> time_ok L app ''lightsOffTime'' (PyStr ''22:00'')
      \<and> float_ok L app ''pumpOnDuration'' (PyInt 900)
      \<and> float_ok L app ''pumpOffDuration'' (PyInt 2700)
      \<and> float_ok L app ''circulationFanOnDuration'' (PyInt 1800)
      \<and> float_ok L app ''circulationFanOffDuration'' (PyInt 1800)
      \<and> (aggregate (dht_reads e) = None
         \<or> float_ok L app ''exhaustFanTempHigh'' (PyFloat 27)
           \<and> float_ok L app ''exhaustFanTempLow'' (PyFloat 23)
           \<and> float_ok L app ''exhaustFanHumidHigh'' (PyFloat 65)
           \<and> float_ok L app ''exhaustFanHumidLow'' (PyFloat 55)))"

text \<open>The example environment with the overflow switch triggered.\<close>

definition overflow_env :: "(string \<rightharpoonup> string) \<Rightarrow> real \<Rightarrow> tick_env" where
  "overflow_env rows t = (example_env rows t)\<lparr>gpio_input_high := (\<lambda>p. False)\<rparr>"

text \<open>
  The world in the middle of a fill that started at time \<open>t\<close>: the solenoid relay is on,
  every other relay is off.
\<close>

definition filling_world :: "real \<Rightarrow> world" where
  "filling_world t =
     (initial_world 0 0 0 Map.empty)\<lparr>hw := filling_state t,
                                      relays := (\<lambda>p. p = SOLENOID_RELAY_PIN)\<rparr>"

text \<open>What step 6 reads and writes: the time of the last log, the two tables, the console.\<close>

definition log_view ::
  "world \<Rightarrow> real \<times> reading_row list \<times> reading_row option \<times> log_outcome list" where
  "log_view w = (last_sensor_log_time (hw w), sensor_readings w, latest_state w, log_events w)"

text \<open>The steps before the water step leave the water entries and the solenoid relay alone.\<close>

definition water_untouched :: "world \<Rightarrow> world \<Rightarrow> bool" where
  "water_untouched v v' =
     (same_water (hw v) (hw v') \<and> relays v' SOLENOID_RELAY_PIN = relays v SOLENOID_RELAY_PIN)"

section \<open>Properties\<close>

subsection \<open>The relay primitive and the frame of each step\<close>

lemma toggle_relay_snd: "snd (toggle_relay fault p d gpio) = (\<not> fault p \<and> d)"
  by (auto simp: toggle_relay_def Let_def)

lemma toggle_relay_fst_pin: "\<not> fault p \<Longrightarrow> fst (toggle_relay fault p d gpio) p = d"
  by (auto simp: toggle_relay_def Let_def)

lemma toggle_relay_fst_other: "q \<noteq> p \<Longrightarrow> fst (toggle_relay fault p d gpio) q = gpio q"
  by (auto simp: toggle_relay_def Let_def)

lemmas water_engine_defs = water_engine_def water_logic_def update_solenoid_def Let_def

lemma same_water_trans: "same_water a b \<Longrightarrow> same_water b c \<Longrightarrow> same_water a c"
  by (simp add: same_water_def)

lemma lights_step_hw: "lights_step L app e w = Inr w' \<Longrightarrow> hw w' = hw w"
  by (auto simp: lights_step_def split: sum.splits)

lemma exhaust_step_hw: "exhaust_step L app e w = Inr w' \<Longrightarrow> hw w' = hw w"
  by (auto simp: exhaust_step_def split: sum.splits)

lemma pumps_step_hw:
  "pumps_step L app e w = Inr w' \<Longrightarrow>
     same_water (hw w) (hw w') \<and> exhaust_fans_on (hw w') = exhaust_fans_on (hw w)
     \<and> circulation_fans_on (hw w') = circulation_fans_on (hw w)
     \<and> last_circulation_fans_toggle (hw w') = last_circulation_fans_toggle (hw w)"
  by (auto simp: pumps_step_def same_water_def split: sum.splits prod.splits)

lemma circulation_step_hw:
  "circulation_step L app e w = Inr w' \<Longrightarrow>
     same_water (hw w) (hw w') \<and> exhaust_fans_on (hw w') = exhaust_fans_on (hw w)
     \<and> pumps_on (hw w') = pumps_on (hw w)
     \<and> last_pumps_toggle (hw w') = last_pumps_toggle (hw w)"
  by (auto simp: circulation_step_def same_water_def split: sum.splits prod.splits)

lemma water_control_hw:
  "water_control L (load_settings L (settings_rows e)) e w = Inr w' \<Longrightarrow>
     \<exists>m. py_float L (get_setting (load_settings L (settings_rows e)) ''maxFillTime'' (PyInt 600))
           = Inr m
       \<and> hw w' = fst (engine_of L e m (hw w, relays w))
       \<and> relays w' = snd (engine_of L e m (hw w, relays w))"
  by (auto simp: water_control_def engine_of_def Let_def split: sum.splits)

lemma water_logic_frame:
  "pumps_on (fst (water_logic ovf ok mode m now h)) = pumps_on h
   \<and> last_pumps_toggle (fst (water_logic ovf ok mode m now h)) = last_pumps_toggle h
   \<and> circulation_fans_on (fst (water_logic ovf ok mode m now h)) = circulation_fans_on h
   \<and> last_circulation_fans_toggle (fst (water_logic ovf ok mode m now h))
       = last_circulation_fans_toggle h
   \<and> exhaust_fans_on (fst (water_logic ovf ok mode m now h)) = exhaust_fans_on h
   \<and> last_sensor_log_time (fst (water_logic ovf ok mode m now h)) = last_sensor_log_time h
   \<and> solenoid_on (fst (water_logic ovf ok mode m now h)) = solenoid_on h
   \<and> solenoid_start_time (fst (water_logic ovf ok mode m now h)) = solenoid_start_time h"
  by (cases "solenoid_on h"; cases "solenoid_start_time h") (simp_all add: water_logic_def)

lemma update_solenoid_frame:
  "pumps_on (fst (update_solenoid fault now d (h, g))) = pumps_on h
   \<and> last_pumps_toggle (fst (update_solenoid fault now d (h, g))) = last_pumps_toggle h
   \<and> circulation_fans_on (fst (update_solenoid fault now d (h, g))) = circulation_fans_on h
   \<and> last_circulation_fans_toggle (fst (update_solenoid fault now d (h, g)))
       = last_circulation_fans_toggle h
   \<and> exhaust_fans_on (fst (update_solenoid fault now d (h, g))) = exhaust_fans_on h
   \<and> last_sensor_log_time (fst (update_solenoid fault now d (h, g))) = last_sensor_log_time h"
  by (cases "fault SOLENOID_RELAY_PIN"; cases d; cases "solenoid_on h")
     (simp_all add: update_solenoid_def toggle_relay_snd Let_def)

lemma water_engine_frame:
  "pumps_on (fst (fst (water_engine fault ovf ok mode m now (h, g)))) = pumps_on h
   \<and> last_pumps_toggle (fst (fst (water_engine fault ovf ok mode m now (h, g)))) = last_pumps_toggle h
   \<and> circulation_fans_on (fst (fst (water_engine fault ovf ok mode m now (h, g))))
       = circulation_fans_on h
   \<and> last_circulation_fans_toggle (fst (fst (water_engine fault ovf ok mode m now (h, g))))
       = last_circulation_fans_toggle h
   \<and> exhaust_fans_on (fst (fst (water_engine fault ovf ok mode m now (h, g)))) = exhaust_fans_on h
   \<and> last_sensor_log_time (fst (fst (water_engine fault ovf ok mode m now (h, g))))
       = last_sensor_log_time h"
  using water_logic_frame[of ovf ok mode m now h]
    update_solenoid_frame[of fault now "fst (snd (water_logic ovf ok mode m now h))"
      "fst (water_logic ovf ok mode m now h)" g]
  by (simp add: water_engine_def Let_def)

lemma log_step_hw:
  "same_water (hw w) (hw (log_step e reading w))
   \<and> exhaust_fans_on (hw (log_step e reading w)) = exhaust_fans_on (hw w)
   \<and> pumps_on (hw (log_step e reading w)) = pumps_on (hw w)
   \<and> last_pumps_toggle (hw (log_step e reading w)) = last_pumps_toggle (hw w)
   \<and> circulation_fans_on (hw (log_step e reading w)) = circulation_fans_on (hw w)
   \<and> last_circulation_fans_toggle (hw (log_step e reading w))
       = last_circulation_fans_toggle (hw w)
   \<and> relays (log_step e reading w) = relays w"
  by (cases reading)
     (auto simp: log_step_def log_sensor_data_def same_water_def Let_def
           split: prod.splits if_splits)

text \<open>
  What a tick does to the water entries: nothing when it is aborted, one run of the water
  engine when it completes.
\<close>

lemma tick_water:
  assumes "tick L e w = (w', out)"
  shows "(out \<noteq> Completed \<and> same_water (hw w) (hw w'))
   \<or> (out = Completed \<and>
       (\<exists>h g m. same_water (hw w) h
          \<and> py_float L (get_setting (load_settings L (settings_rows e)) ''maxFillTime''
                (PyInt 600)) = Inr m
          \<and> same_water (fst (engine_of L e m (h, g))) (hw w')
          \<and> relays w' = snd (engine_of L e m (h, g))))"
proof (cases "db_load_fails e")
  case True
  with assms show ?thesis by (auto simp: tick_def same_water_def)
next
  case False
  define app where "app = load_settings L (settings_rows e)"
  define w0 where "w0 = w\<lparr>settings_tab := settings_rows e\<rparr>"
  have h0: "hw w0 = hw w" by (simp add: w0_def)
  show ?thesis
  proof (cases "lights_step L app e w0")
    case (Inl x)
    with assms False show ?thesis
      by (auto simp: tick_def Let_def app_def w0_def same_water_def)
  next
    case l: (Inr w1)
    have h1: "hw w1 = hw w" using lights_step_hw[OF l] h0 by simp
    show ?thesis
    proof (cases "pumps_step L app e w1")
      case (Inl x)
      with assms False l h1 show ?thesis
        by (auto simp: tick_def Let_def app_def w0_def same_water_def)
    next
      case p: (Inr w2)
      have h2: "same_water (hw w) (hw w2)" using pumps_step_hw[OF p] h1 by simp
      show ?thesis
      proof (cases "circulation_step L app e w2")
        case (Inl x)
        with assms False l p h2 show ?thesis
          by (auto simp: tick_def Let_def app_def w0_def)
      next
        case c: (Inr w3)
        have h3: "same_water (hw w) (hw w3)"
          using circulation_step_hw[OF c] h2 same_water_trans by blast
        show ?thesis
        proof (cases "exhaust_step L app e w3")
          case (Inl x)
          with assms False l p c h3 show ?thesis
            by (auto simp: tick_def Let_def app_def w0_def)
        next
          case x: (Inr w4)
          have h4: "same_water (hw w) (hw w4)" using exhaust_step_hw[OF x] h3 by simp
          show ?thesis
          proof (cases "water_control L app e w4")
            case (Inl y)
            with assms False l p c x h4 show ?thesis
              by (auto simp: tick_def Let_def app_def w0_def)
          next
            case wc: (Inr w5)
            from wc obtain m where
              m: "py_float L (get_setting (load_settings L (settings_rows e)) ''maxFillTime''
                    (PyInt 600)) = Inr m"
              and h5: "hw w5 = fst (engine_of L e m (hw w4, relays w4))"
              and r5: "relays w5 = snd (engine_of L e m (hw w4, relays w4))"
              using water_control_hw[of L e w4 w5] by (auto simp: app_def)
            from assms False l p c x wc
            have w': "w' = log_step e (aggregate (dht_reads e)) w5" and out: "out = Completed"
              by (auto simp: tick_def Let_def app_def w0_def)
            have "same_water (fst (engine_of L e m (hw w4, relays w4))) (hw w')"
              using log_step_hw[of w5 e "aggregate (dht_reads e)"] h5 w' by simp
            moreover have "relays w' = snd (engine_of L e m (hw w4, relays w4))"
              using log_step_hw[of w5 e "aggregate (dht_reads e)"] r5 w' by simp
            ultimately show ?thesis using out h4 m by blast
          qed
        qed
      qed
    qed
  qed
qed

text \<open>A tick completes exactly when the table can be read and its settings convert.\<close>

lemma lights_step_isl:
  "isl (lights_step L app e w) =
     (\<not> (time_ok L app ''lightsOnTime'' (PyStr ''06:00'')
         \<and> time_ok L app ''lightsOffTime'' (PyStr ''22:00'')))"
  by (simp add: lights_step_def lights_control_def lights_schedule_def time_ok_def
           split: sum.split)

lemma pumps_step_isl:
  "isl (pumps_step L app e w) =
     (\<not> (float_ok L app ''pumpOnDuration'' (PyInt 900)
         \<and> float_ok L app ''pumpOffDuration'' (PyInt 2700)))"
  by (simp add: pumps_step_def pumps_control_def float_ok_def split: sum.split prod.split)

lemma circulation_step_isl:
  "isl (circulation_step L app e w) =
     (\<not> (float_ok L app ''circulationFanOnDuration'' (PyInt 1800)
         \<and> float_ok L app ''circulationFanOffDuration'' (PyInt 1800)))"
  by (simp add: circulation_step_def circulation_fans_control_def float_ok_def
           split: sum.split prod.split)

lemma exhaust_step_isl:
  "isl (exhaust_step L app e w) =
     (\<not> (aggregate (dht_reads e) = None
         \<or> float_ok L app ''exhaustFanTempHigh'' (PyFloat 27)
           \<and> float_ok L app ''exhaustFanTempLow'' (PyFloat 23)
           \<and> float_ok L app ''exhaustFanHumidHigh'' (PyFloat 65)
           \<and> float_ok L app ''exhaustFanHumidLow'' (PyFloat 55)))"
  by (simp add: exhaust_step_def exhaust_fans_control_def float_ok_def
           split: sum.split prod.split option.split)

lemma water_control_isl:
  "isl (water_control L app e w) = (\<not> float_ok L app ''maxFillTime'' (PyInt 600))"
  by (simp add: water_control_def float_ok_def Let_def split: sum.split)

text \<open>A tick completes exactly when the table can be read and its settings convert.\<close>

lemma tick_completed_iff:
  "snd (tick L e w) = Completed \<longleftrightarrow> \<not> db_load_fails e \<and> settings_parse L e"
proof (cases "db_load_fails e")
  case True
  then show ?thesis by (simp add: tick_def)
next
  case False
  define app where "app = load_settings L (settings_rows e)"
  define w0 where "w0 = w\<lparr>settings_tab := settings_rows e\<rparr>"
  define P1 where "P1 = (time_ok L app ''lightsOnTime'' (PyStr ''06:00'')
         \<and> time_ok L app ''lightsOffTime'' (PyStr ''22:00''))"
  define P2 where "P2 = (float_ok L app ''pumpOnDuration'' (PyInt 900)
         \<and> float_ok L app ''pumpOffDuration'' (PyInt 2700))"
  define P3 where "P3 = (float_ok L app ''circulationFanOnDuration'' (PyInt 1800)
         \<and> float_ok L app ''circulationFanOffDuration'' (PyInt 1800))"
  define P4 where "P4 = (aggregate (dht_reads e) = None
         \<or> float_ok L app ''exhaustFanTempHigh'' (PyFloat 27)
           \<and> float_ok L app ''exhaustFanTempLow'' (PyFloat 23)
           \<and> float_ok L app ''exhaustFanHumidHigh'' (PyFloat 65)
           \<and> float_ok L app ''exhaustFanHumidLow'' (PyFloat 55))"
  define P5 where "P5 = float_ok L app ''maxFillTime'' (PyInt 600)"
  have sp: "settings_parse L e = (P1 \<and> P2 \<and> P3 \<and> P4 \<and> P5)"
    unfolding settings_parse_def Let_def P1_def P2_def P3_def P4_def P5_def app_def by blast
  have i1: "\<And>v. isl (lights_step L app e v) = (\<not> P1)"
    unfolding P1_def by (rule lights_step_isl)
  have i2: "\<And>v. isl (pumps_step L app e v) = (\<not> P2)"
    unfolding P2_def by (rule pumps_step_isl)
  have i3: "\<And>v. isl (circulation_step L app e v) = (\<not> P3)"
    unfolding P3_def by (rule circulation_step_isl)
  have i4: "\<And>v. isl (exhaust_step L app e v) = (\<not> P4)"
    unfolding P4_def by (rule exhaust_step_isl)
  have i5: "\<And>v. isl (water_control L app e v) = (\<not> P5)"
    unfolding P5_def by (rule water_control_isl)
  have t: "tick L e w =
     (case lights_step L app e w0 of Inl x \<Rightarrow> (w0, Aborted x) | Inr w1 \<Rightarrow>
     (case pumps_step L app e w1 of Inl x \<Rightarrow> (w1, Aborted x) | Inr w2 \<Rightarrow>
     (case circulation_step L app e w2 of Inl x \<Rightarrow> (w2, Aborted x) | Inr w3 \<Rightarrow>
     (case exhaust_step L app e w3 of Inl x \<Rightarrow> (w3, Aborted x) | Inr w4 \<Rightarrow>
     (case water_control L app e w4 of Inl x \<Rightarrow> (w4, Aborted x) | Inr w5 \<Rightarrow>
        (log_step e (aggregate (dht_reads e)) w5, Completed))))))"
    unfolding app_def w0_def using False by (simp add: tick_def Let_def)
  show ?thesis
  proof (cases "lights_step L app e w0")
    case (Inl x)
    with i1[of w0] t sp False show ?thesis by simp
  next
    case l: (Inr w1)
    show ?thesis
    proof (cases "pumps_step L app e w1")
      case (Inl x)
      with i2[of w1] l t sp False show ?thesis by simp
    next
      case p: (Inr w2)
      show ?thesis
      proof (cases "circulation_step L app e w2")
        case (Inl x)
        with i3[of w2] l p t sp False show ?thesis by simp
      next
        case c: (Inr w3)
        show ?thesis
        proof (cases "exhaust_step L app e w3")
          case (Inl x)
          with i4[of w3] l p c t sp False show ?thesis by simp
        next
          case x: (Inr w4)
          show ?thesis
          proof (cases "water_control L app e w4")
            case (Inl y)
            with i5[of w4] l p c x t sp False show ?thesis by simp
          next
            case wc: (Inr w5)
            from i1[of w0] l have "P1" by simp
            moreover from i2[of w1] p have "P2" by simp
            moreover from i3[of w2] c have "P3" by simp
            moreover from i4[of w3] x have "P4" by simp
            moreover from i5[of w4] wc have "P5" by simp
            ultimately show ?thesis using l p c x wc t sp False by simp
          qed
        qed
      qed
    qed
  qed
qed

lemma water_engine_overflow:
  "\<not> solenoid_on (fst (fst (water_engine fault True ok mode m now (h, gpio))))
   \<and> water_error (fst (fst (water_engine fault True ok mode m now (h, gpio)))) = Some ''overflow''
   \<and> (\<not> fault SOLENOID_RELAY_PIN \<longrightarrow>
        \<not> snd (fst (water_engine fault True ok mode m now (h, gpio))) SOLENOID_RELAY_PIN)"
  by (simp add: water_engine_defs toggle_relay_snd toggle_relay_fst_pin)

subsection \<open>Running the loop on concrete settings\<close>

lemmas pin_defs = LIGHTS_PINS_def PUMPS_PINS_def EXHAUST_FANS_PINS_def CIRCULATION_FANS_PINS_def
  FLOAT_SENSORS_PINS_def OVERFLOW_SENSOR_PIN_def SOLENOID_RELAY_PIN_def

lemmas lib_defs = plain_lib_def plain_int_def plain_float_def plain_strptime_HM_def all_digits_def
  is_digit_def nat_of_digits_def digit_val_def

text \<open>The integers that the loop has as defaults are far below the bound of \<^verbatim>\<open>float\<close>.\<close>

lemma max_float_int_large: "2 ^ 64 \<le> max_float_int"
  by (simp add: max_float_int_def)

lemma default_ints_convert [simp]:
  "600 < max_float_int" "900 < max_float_int" "1800 < max_float_int" "2700 < max_float_int"
  using max_float_int_large by simp_all

text \<open>With an empty settings table every read is a default, and every default converts.\<close>

lemma settings_parse_defaults:
  "settings_rows e = Map.empty \<Longrightarrow> settings_parse plain_lib e"
  by (simp add: settings_parse_def load_settings_def get_setting_def float_ok_def time_ok_def
        py_float_def parse_time_def lib_defs)

subsection \<open>The lights schedule\<close>

text \<open>
  Claim C8. The schedule decision of the lights: when the on time is not after the off
  time, the lights are scheduled on exactly from the on time up to, not including, the off
  time, hence never when the two are equal; when the on time is after the off time, exactly
  from the on time on and before the off time. The two times are the settings
  \<^verbatim>\<open>lightsOnTime\<close> and \<^verbatim>\<open>lightsOffTime\<close> as parsed.
\<close>

theorem lights_schedule_window:
  "(on_time \<le> off_time \<longrightarrow>
      schedule_on now on_time off_time = (on_time \<le> now \<and> now < off_time))
   \<and> (on_time = off_time \<longrightarrow> \<not> schedule_on now on_time off_time)
   \<and> (off_time < on_time \<longrightarrow>
      schedule_on now on_time off_time = (on_time \<le> now \<or> now < off_time))
   \<and> (parse_time L (get_setting app ''lightsOnTime'' (PyStr ''06:00'')) = Inr on_time
      \<and> parse_time L (get_setting app ''lightsOffTime'' (PyStr ''22:00'')) = Inr off_time
      \<longrightarrow> lights_schedule L app now = Inr (schedule_on now on_time off_time))"
  by (auto simp: schedule_on_def lights_schedule_def)

theorem lights_schedule_window_witness:
  "schedule_on (12, 0, 0, 0) (6, 0, 0, 0) (22, 0, 0, 0)
   \<and> \<not> schedule_on (23, 0, 0, 0) (6, 0, 0, 0) (22, 0, 0, 0)
   \<and> schedule_on (23, 0, 0, 0) (20, 0, 0, 0) (8, 0, 0, 0)
   \<and> schedule_on (5, 0, 0, 0) (20, 0, 0, 0) (8, 0, 0, 0)
   \<and> \<not> schedule_on (12, 0, 0, 0) (20, 0, 0, 0) (8, 0, 0, 0)
   \<and> \<not> schedule_on (7, 30, 0, 0) (7, 30, 0, 0) (7, 30, 0, 0)
   \<and> lights_schedule plain_lib
        (load_settings plain_lib [''lightsOnTime'' \<mapsto> ''20:00'', ''lightsOffTime'' \<mapsto> ''08:00''])
        (23, 0, 0, 0) = Inr True"
proof -
  let ?app = "load_settings plain_lib [''lightsOnTime'' \<mapsto> ''20:00'', ''lightsOffTime'' \<mapsto> ''08:00'']"
  have on: "parse_time plain_lib (get_setting ?app ''lightsOnTime'' (PyStr ''06:00''))
              = Inr (20, 0, 0, 0)"
    by (simp add: load_settings_def get_setting_def convert_value_def parse_time_def lib_defs)
  have off: "parse_time plain_lib (get_setting ?app ''lightsOffTime'' (PyStr ''22:00''))
              = Inr (8, 0, 0, 0)"
    by (simp add: load_settings_def get_setting_def convert_value_def parse_time_def lib_defs)
  have a: "schedule_on (12, 0, 0, 0) (6, 0, 0, 0) (22, 0, 0, 0)"
    using lights_schedule_window[of "(6, 0, 0, 0)" "(22, 0, 0, 0)" "(12, 0, 0, 0)"] by simp
  have b: "\<not> schedule_on (23, 0, 0, 0) (6, 0, 0, 0) (22, 0, 0, 0)"
    using lights_schedule_window[of "(6, 0, 0, 0)" "(22, 0, 0, 0)" "(23, 0, 0, 0)"] by simp
  have c: "schedule_on (23, 0, 0, 0) (20, 0, 0, 0) (8, 0, 0, 0)"
    using lights_schedule_window[of "(20, 0, 0, 0)" "(8, 0, 0, 0)" "(23, 0, 0, 0)"] by simp
  have d: "schedule_on (5, 0, 0, 0) (20, 0, 0, 0) (8, 0, 0, 0)"
    using lights_schedule_window[of "(20, 0, 0, 0)" "(8, 0, 0, 0)" "(5, 0, 0, 0)"] by simp
  have e: "\<not> schedule_on (12, 0, 0, 0) (20, 0, 0, 0) (8, 0, 0, 0)"
    using lights_schedule_window[of "(20, 0, 0, 0)" "(8, 0, 0, 0)" "(12, 0, 0, 0)"] by simp
  have f: "\<not> schedule_on (7, 30, 0, 0) (7, 30, 0, 0) (7, 30, 0, 0)"
    using lights_schedule_window[of "(7, 30, 0, 0)" "(7, 30, 0, 0)" "(7, 30, 0, 0)"] by simp
  have g: "lights_schedule plain_lib ?app (23, 0, 0, 0) = Inr True"
    using lights_schedule_window[of "(20, 0, 0, 0)" "(8, 0, 0, 0)" "(23, 0, 0, 0)" plain_lib ?app]
      on off c by simp
  from a b c d e f g show ?thesis by blast
qed

subsection \<open>The water engine\<close>

text \<open>
  Claim C4. While the solenoid is on with its start time recorded and there is no overflow:
  once more than \<^verbatim>\<open>max_fill_time\<close> has passed since the start, the solenoid is
  turned off, the start time is cleared, and the error is \<^verbatim>\<open>reservoir_empty\<close> when
  the water level is not OK and \<^verbatim>\<open>timeout\<close> when it is; up to and including
  \<^verbatim>\<open>max_fill_time\<close> the solenoid stays on whatever the float switches read (the relay
  access not raising).
\<close>

theorem fill_timeout:
  assumes "solenoid_on h" and "solenoid_start_time h = Some start"
  shows "let h' = fst (fst (water_engine fault False ok mode m now (h, gpio)));
             gpio' = snd (fst (water_engine fault False ok mode m now (h, gpio)))
         in (now - start > m \<longrightarrow>
               \<not> solenoid_on h' \<and> solenoid_start_time h' = None
             \<and> water_error h' = Some (if ok then ''timeout'' else ''reservoir_empty'')
             \<and> (\<not> fault SOLENOID_RELAY_PIN \<longrightarrow> \<not> gpio' SOLENOID_RELAY_PIN))
          \<and> (now - start \<le> m \<and> \<not> fault SOLENOID_RELAY_PIN \<longrightarrow>
               solenoid_on h' \<and> solenoid_start_time h' = Some start
             \<and> water_error h' = water_error h \<and> gpio' SOLENOID_RELAY_PIN)"
  using assms
  by (simp add: water_engine_defs toggle_relay_snd toggle_relay_fst_pin)

theorem fill_timeout_witness:
  "(let r = fst (water_engine (\<lambda>p. False) False False (PyStr ''auto'') 600 601
                  (filling_state 0, (\<lambda>p. p = SOLENOID_RELAY_PIN)))
    in \<not> solenoid_on (fst r) \<and> water_error (fst r) = Some ''reservoir_empty''
       \<and> \<not> snd r SOLENOID_RELAY_PIN)
   \<and> (let r = fst (water_engine (\<lambda>p. False) False True (PyStr ''auto'') 600 601
                  (filling_state 0, (\<lambda>p. p = SOLENOID_RELAY_PIN)))
    in \<not> solenoid_on (fst r) \<and> water_error (fst r) = Some ''timeout'')
   \<and> (let r = fst (water_engine (\<lambda>p. False) False True (PyStr ''auto'') 600 600
                  (filling_state 0, (\<lambda>p. p = SOLENOID_RELAY_PIN)))
    in solenoid_on (fst r) \<and> solenoid_start_time (fst r) = Some 0 \<and> snd r SOLENOID_RELAY_PIN)"
proof -
  have on: "solenoid_on (filling_state 0)" and st: "solenoid_start_time (filling_state 0) = Some 0"
    by (simp_all add: filling_state_def initial_hardware_state_def)
  show ?thesis
    using fill_timeout[OF on st, where fault="\<lambda>p. False" and ok=False and mode="PyStr ''auto''"
        and m=600 and now=601 and gpio="\<lambda>p. p = SOLENOID_RELAY_PIN"]
      fill_timeout[OF on st, where fault="\<lambda>p. False" and ok=True and mode="PyStr ''auto''"
        and m=600 and now=601 and gpio="\<lambda>p. p = SOLENOID_RELAY_PIN"]
      fill_timeout[OF on st, where fault="\<lambda>p. False" and ok=True and mode="PyStr ''auto''"
        and m=600 and now=600 and gpio="\<lambda>p. p = SOLENOID_RELAY_PIN"]
    by (simp add: Let_def)
qed

subsection \<open>Invariants of the water entries\<close>

lemma water_engine_fill_inv:
  "fill_inv h \<Longrightarrow> fill_inv (fst (fst (water_engine fault ovf ok mode m now (h, g))))"
  by (cases ovf; cases "solenoid_on h"; cases "solenoid_start_time h";
      cases "fault SOLENOID_RELAY_PIN")
     (simp_all add: fill_inv_def water_engine_defs toggle_relay_snd)

lemma water_engine_idle_on_error:
  "idle_on_error h \<Longrightarrow> idle_on_error (fst (fst (water_engine fault ovf ok mode m now (h, g))))"
  by (cases ovf; cases "solenoid_on h"; cases "solenoid_start_time h";
      cases "fault SOLENOID_RELAY_PIN")
     (simp_all add: idle_on_error_def water_engine_defs toggle_relay_snd)

lemma water_engine_error_cleared:
  "(\<not> solenoid_on h \<and> solenoid_on (fst (fst (water_engine fault ovf ok mode m now (h, g))))
      \<longrightarrow> water_error (fst (fst (water_engine fault ovf ok mode m now (h, g)))) = None)
   \<and> (water_error (fst (fst (water_engine fault ovf ok mode m now (h, g)))) = None
      \<longrightarrow> water_error h = None
          \<or> \<not> solenoid_on h \<and> solenoid_on (fst (fst (water_engine fault ovf ok mode m now (h, g)))))"
  by (cases ovf; cases "solenoid_on h"; cases "solenoid_start_time h";
      cases "fault SOLENOID_RELAY_PIN")
     (simp_all add: water_engine_defs toggle_relay_snd)

lemma same_water_engine:
  "same_water h h' \<Longrightarrow>
     same_water (fst (fst (water_engine fault ovf ok mode m now (h, g))))
                (fst (fst (water_engine fault ovf ok mode m now (h', g'))))"
  by (cases ovf; cases "solenoid_on h"; cases "solenoid_start_time h";
      cases "fault SOLENOID_RELAY_PIN")
     (simp_all add: same_water_def water_engine_defs toggle_relay_snd)

lemma fill_inv_same: "same_water h h' \<Longrightarrow> fill_inv h' = fill_inv h"
  by (simp add: same_water_def fill_inv_def)

lemma idle_on_error_same: "same_water h h' \<Longrightarrow> idle_on_error h' = idle_on_error h"
  by (simp add: same_water_def idle_on_error_def)

lemma tick_fill_inv:
  assumes "fill_inv (hw w)"
  shows "fill_inv (hw (fst (tick L e w)))"
proof -
  obtain w' out where t: "tick L e w = (w', out)" by (cases "tick L e w")
  from tick_water[OF t] show ?thesis
  proof
    assume "out \<noteq> Completed \<and> same_water (hw w) (hw w')"
    with assms t show ?thesis by (simp add: fill_inv_def same_water_def)
  next
    assume "out = Completed \<and>
       (\<exists>h g m. same_water (hw w) h
          \<and> py_float L (get_setting (load_settings L (settings_rows e)) ''maxFillTime''
                (PyInt 600)) = Inr m
          \<and> same_water (fst (engine_of L e m (h, g))) (hw w')
          \<and> relays w' = snd (engine_of L e m (h, g)))"
    then obtain h g m where a: "same_water (hw w) h"
      and b: "same_water (fst (engine_of L e m (h, g))) (hw w')" by blast
    from a assms have "fill_inv h" by (simp add: fill_inv_def same_water_def)
    then have "fill_inv (fst (engine_of L e m (h, g)))"
      unfolding engine_of_def by (rule water_engine_fill_inv)
    with b t show ?thesis by (simp add: fill_inv_def same_water_def)
  qed
qed

lemma tick_idle_on_error:
  assumes "idle_on_error (hw w)"
  shows "idle_on_error (hw (fst (tick L e w)))"
proof -
  obtain w' out where t: "tick L e w = (w', out)" by (cases "tick L e w")
  from tick_water[OF t] show ?thesis
  proof
    assume "out \<noteq> Completed \<and> same_water (hw w) (hw w')"
    with assms t show ?thesis by (simp add: idle_on_error_def same_water_def)
  next
    assume "out = Completed \<and>
       (\<exists>h g m. same_water (hw w) h
          \<and> py_float L (get_setting (load_settings L (settings_rows e)) ''maxFillTime''
                (PyInt 600)) = Inr m
          \<and> same_water (fst (engine_of L e m (h, g))) (hw w')
          \<and> relays w' = snd (engine_of L e m (h, g)))"
    then obtain h g m where a: "same_water (hw w) h"
      and b: "same_water (fst (engine_of L e m (h, g))) (hw w')" by blast
    from a assms have "idle_on_error h" by (simp add: idle_on_error_def same_water_def)
    then have "idle_on_error (fst (engine_of L e m (h, g)))"
      unfolding engine_of_def by (rule water_engine_idle_on_error)
    with b t show ?thesis by (simp add: idle_on_error_def same_water_def)
  qed
qed

lemma tick_error_cleared:
  "(\<not> solenoid_on (hw w) \<and> solenoid_on (hw (fst (tick L e w)))
      \<longrightarrow> water_error (hw (fst (tick L e w))) = None)
   \<and> (water_error (hw (fst (tick L e w))) = None
      \<longrightarrow> water_error (hw w) = None
          \<or> \<not> solenoid_on (hw w) \<and> solenoid_on (hw (fst (tick L e w))))"
proof -
  obtain w' out where t: "tick L e w = (w', out)" by (cases "tick L e w")
  from tick_water[OF t] show ?thesis
  proof
    assume "out \<noteq> Completed \<and> same_water (hw w) (hw w')"
    with t show ?thesis by (simp add: same_water_def)
  next
    assume "out = Completed \<and>
       (\<exists>h g m. same_water (hw w) h
          \<and> py_float L (get_setting (load_settings L (settings_rows e)) ''maxFillTime''
                (PyInt 600)) = Inr m
          \<and> same_water (fst (engine_of L e m (h, g))) (hw w')
          \<and> relays w' = snd (engine_of L e m (h, g)))"
    then obtain h g m where a: "same_water (hw w) h"
      and b: "same_water (fst (engine_of L e m (h, g))) (hw w')" by blast
    have c: "(\<not> solenoid_on h \<and> solenoid_on (fst (engine_of L e m (h, g)))
                \<longrightarrow> water_error (fst (engine_of L e m (h, g))) = None)
       \<and> (water_error (fst (engine_of L e m (h, g))) = None
                \<longrightarrow> water_error h = None
                   \<or> \<not> solenoid_on h \<and> solenoid_on (fst (engine_of L e m (h, g))))"
      unfolding engine_of_def by (rule water_engine_error_cleared)
    from a b c t show ?thesis by (simp add: same_water_def)
  qed
qed

lemma run_fill_inv: "fill_inv (hw w) \<Longrightarrow> fill_inv (hw (run L w es))"
  by (induction es arbitrary: w) (simp_all add: tick_fill_inv)

lemma run_idle_on_error: "idle_on_error (hw w) \<Longrightarrow> idle_on_error (hw (run L w es))"
  by (induction es arbitrary: w) (simp_all add: tick_idle_on_error)

lemma initial_invs:
  "fill_inv (hw (initial_world t1 t2 t3 tab)) \<and> idle_on_error (hw (initial_world t1 t2 t3 tab))"
  by (simp add: fill_inv_def idle_on_error_def initial_world_def initial_hardware_state_def)

lemma water_engine_hw_gpio:
  "fst (fst (water_engine fault ovf ok mode m now (h, g)))
     = fst (fst (water_engine fault ovf ok mode m now (h, g')))"
  by (simp add: water_engine_defs toggle_relay_snd)

text \<open>The water entries after a completed tick are those the water engine computes.\<close>

lemma tick_completed_water:
  assumes "\<not> db_load_fails e" and "settings_parse L e"
    and m: "py_float L (get_setting (load_settings L (settings_rows e)) ''maxFillTime''
              (PyInt 600)) = Inr m"
    and hh: "same_water h (hw w)"
  shows "same_water (fst (engine_of L e m (h, g))) (hw (fst (tick L e w)))"
proof -
  obtain w' out where t: "tick L e w = (w', out)" by (cases "tick L e w")
  from assms(1,2) t have "out = Completed"
    using tick_completed_iff[of L e w] by simp
  with tick_water[OF t] obtain h1 g1 m1 where a: "same_water (hw w) h1"
    and m1: "py_float L (get_setting (load_settings L (settings_rows e)) ''maxFillTime''
              (PyInt 600)) = Inr m1"
    and b: "same_water (fst (engine_of L e m1 (h1, g1))) (hw w')" by blast
  from m m1 have mm: "m1 = m" by simp
  from hh a have "same_water h h1" by (rule same_water_trans)
  then have "same_water (fst (engine_of L e m (h, g))) (fst (engine_of L e m (h1, g1)))"
    unfolding engine_of_def by (rule same_water_engine)
  with b mm t show ?thesis by (auto intro: same_water_trans)
qed

lemma water_engine_stays_off:
  "\<not> solenoid_on h \<Longrightarrow> water_error h = Some ''reservoir_empty'' \<Longrightarrow>
     \<not> solenoid_on (fst (fst (water_engine fault ovf ok (PyStr ''auto'') m now (h, g))))"
  by (cases ovf; cases "fault SOLENOID_RELAY_PIN")
     (simp_all add: water_engine_defs toggle_relay_snd)

lemma tick_stays_off:
  assumes off: "\<not> solenoid_on (hw w)" and err: "water_error (hw w) = Some ''reservoir_empty''"
    and mode: "get_setting (load_settings L (settings_rows e)) ''waterSystemMode''
                 (PyStr ''auto'') = PyStr ''auto''"
  shows "\<not> solenoid_on (hw (fst (tick L e w)))"
proof -
  obtain w' out where t: "tick L e w = (w', out)" by (cases "tick L e w")
  from tick_water[OF t] show ?thesis
  proof
    assume "out \<noteq> Completed \<and> same_water (hw w) (hw w')"
    with off t show ?thesis by (simp add: same_water_def)
  next
    assume "out = Completed \<and>
       (\<exists>h g m. same_water (hw w) h
          \<and> py_float L (get_setting (load_settings L (settings_rows e)) ''maxFillTime''
                (PyInt 600)) = Inr m
          \<and> same_water (fst (engine_of L e m (h, g))) (hw w')
          \<and> relays w' = snd (engine_of L e m (h, g)))"
    then obtain h g m where a: "same_water (hw w) h"
      and b: "same_water (fst (engine_of L e m (h, g))) (hw w')" by blast
    from a off err have "\<not> solenoid_on h" and "water_error h = Some ''reservoir_empty''"
      by (simp_all add: same_water_def)
    then have "\<not> solenoid_on (fst (engine_of L e m (h, g)))"
      unfolding engine_of_def mode by (rule water_engine_stays_off)
    with b t show ?thesis by (simp add: same_water_def)
  qed
qed

subsection \<open>A fill that runs into the timeout\<close>

lemma default_tick_water:
  assumes "settings_rows e = Map.empty" and "\<not> db_load_fails e" and "same_water h (hw w)"
  shows "same_water
           (fst (fst (water_engine (relay_fault e) (overflow_detected e)
              (list_all id (water_levels_ok e)) (PyStr ''auto'') 600 (monotonic_time e) (h, g))))
           (hw (fst (tick plain_lib e w)))"
proof -
  have m: "py_float plain_lib (get_setting (load_settings plain_lib (settings_rows e))
             ''maxFillTime'' (PyInt 600)) = Inr 600"
    using assms(1) by (simp add: load_settings_def get_setting_def py_float_def)
  have md: "get_setting (load_settings plain_lib (settings_rows e)) ''waterSystemMode''
              (PyStr ''auto'') = PyStr ''auto''"
    using assms(1) by (simp add: load_settings_def get_setting_def)
  from tick_completed_water[OF assms(2) settings_parse_defaults[OF assms(1)] m assms(3), of g]
  show ?thesis by (simp add: engine_of_def md)
qed

lemma low_water_env_simps:
  "settings_rows (low_water_env t) = Map.empty" "\<not> db_load_fails (low_water_env t)"
  "\<not> overflow_detected (low_water_env t)" "\<not> list_all id (water_levels_ok (low_water_env t))"
  "relay_fault (low_water_env t) = (\<lambda>p. False)" "monotonic_time (low_water_env t) = t"
  by (simp_all add: low_water_env_def example_env_def overflow_detected_def water_levels_ok_def
        pin_defs)

lemma scenario_fill:
  "same_water (filling_state 100)
     (hw (fst (tick plain_lib (low_water_env 100) (initial_world 0 0 0 Map.empty))))"
proof -
  have s: "same_water (initial_hardware_state 0 0 0) (hw (initial_world 0 0 0 Map.empty))"
    by (simp add: same_water_def initial_world_def)
  from default_tick_water[OF low_water_env_simps(1,2) s, of 100 "\<lambda>p. False"]
  show ?thesis
    by (simp add: low_water_env_simps water_engine_defs toggle_relay_snd same_water_def
          filling_state_def initial_hardware_state_def)
qed

lemma scenario_empty:
  "\<not> solenoid_on (hw (run plain_lib (initial_world 0 0 0 Map.empty)
                        [low_water_env 100, low_water_env 701]))
   \<and> water_error (hw (run plain_lib (initial_world 0 0 0 Map.empty)
                        [low_water_env 100, low_water_env 701])) = Some ''reservoir_empty''"
proof -
  from default_tick_water[OF low_water_env_simps(1,2) scenario_fill, of 701 "\<lambda>p. False"]
  show ?thesis
    by (simp add: low_water_env_simps water_engine_defs toggle_relay_snd same_water_def
          filling_state_def initial_hardware_state_def)
qed

text \<open>
  Claim C5. With no overflow and the solenoid off, in mode \<^verbatim>\<open>auto\<close> a fill starts
  (the solenoid turns on and the start time is the time of the tick) exactly when some float
  switch reads no water and the stored error is not \<^verbatim>\<open>reservoir_empty\<close>; the relay
  access is taken not to raise. Hence, in every state the loop can reach, a tick in mode
  \<^verbatim>\<open>auto\<close> that finds the error \<^verbatim>\<open>reservoir_empty\<close> finds the solenoid off and
  leaves it off.
\<close>

theorem auto_fill_start:
  "(\<not> solenoid_on (hw w) \<and> \<not> overflow_detected e
      \<and> get_setting app ''waterSystemMode'' (PyStr ''auto'') = PyStr ''auto''
      \<and> py_float L (get_setting app ''maxFillTime'' (PyInt 600)) = Inr m
      \<and> \<not> relay_fault e SOLENOID_RELAY_PIN
    \<longrightarrow> (\<exists>w'. water_control L app e w = Inr w'
          \<and> solenoid_on (hw w')
              = (\<not> (\<forall>p \<in> set FLOAT_SENSORS_PINS. \<not> gpio_input_high e p)
                 \<and> water_error (hw w) \<noteq> Some ''reservoir_empty'')
          \<and> (solenoid_on (hw w') \<longrightarrow>
                solenoid_start_time (hw w') = Some (monotonic_time e)
              \<and> relays w' SOLENOID_RELAY_PIN)))
   \<and> (water_error (hw (run L (initial_world t1 t2 t3 tab) es)) = Some ''reservoir_empty''
      \<and> get_setting (load_settings L (settings_rows e)) ''waterSystemMode'' (PyStr ''auto'')
          = PyStr ''auto''
    \<longrightarrow> \<not> solenoid_on (hw (run L (initial_world t1 t2 t3 tab) es))
      \<and> \<not> solenoid_on (hw (fst (tick L e (run L (initial_world t1 t2 t3 tab) es)))))"
proof (intro conjI impI)
  assume a: "\<not> solenoid_on (hw w) \<and> \<not> overflow_detected e
      \<and> get_setting app ''waterSystemMode'' (PyStr ''auto'') = PyStr ''auto''
      \<and> py_float L (get_setting app ''maxFillTime'' (PyInt 600)) = Inr m
      \<and> \<not> relay_fault e SOLENOID_RELAY_PIN"
  have ok: "list_all id (water_levels_ok e) = (\<forall>p \<in> set FLOAT_SENSORS_PINS. \<not> gpio_input_high e p)"
    by (simp add: water_levels_ok_def list_all_iff)
  show "\<exists>w'. water_control L app e w = Inr w'
          \<and> solenoid_on (hw w')
              = (\<not> (\<forall>p \<in> set FLOAT_SENSORS_PINS. \<not> gpio_input_high e p)
                 \<and> water_error (hw w) \<noteq> Some ''reservoir_empty'')
          \<and> (solenoid_on (hw w') \<longrightarrow>
                solenoid_start_time (hw w') = Some (monotonic_time e)
              \<and> relays w' SOLENOID_RELAY_PIN)"
    using a unfolding ok[symmetric]
    by (simp add: water_control_def water_engine_defs toggle_relay_snd toggle_relay_fst_pin)
next
  assume b: "water_error (hw (run L (initial_world t1 t2 t3 tab) es)) = Some ''reservoir_empty''
      \<and> get_setting (load_settings L (settings_rows e)) ''waterSystemMode'' (PyStr ''auto'')
          = PyStr ''auto''"
  have "idle_on_error (hw (run L (initial_world t1 t2 t3 tab) es))"
    using initial_invs[of t1 t2 t3 tab] by (simp add: run_idle_on_error)
  with b show off: "\<not> solenoid_on (hw (run L (initial_world t1 t2 t3 tab) es))"
    by (auto simp: idle_on_error_def)
  from off b show "\<not> solenoid_on (hw (fst (tick L e (run L (initial_world t1 t2 t3 tab) es))))"
    by (simp add: tick_stays_off)
qed

theorem auto_fill_start_witness:
  "water_error (hw (run plain_lib (initial_world 0 0 0 Map.empty)
                      [low_water_env 100, low_water_env 701])) = Some ''reservoir_empty''
   \<and> \<not> solenoid_on (hw (fst (tick plain_lib (low_water_env 703)
          (run plain_lib (initial_world 0 0 0 Map.empty) [low_water_env 100, low_water_env 701]))))
   \<and> (\<exists>w'. water_control plain_lib Map.empty (low_water_env 100) (initial_world 0 0 0 Map.empty)
              = Inr w'
          \<and> solenoid_on (hw w') \<and> solenoid_start_time (hw w') = Some 100)"
proof -
  let ?w0 = "initial_world 0 0 0 Map.empty"
  have off: "\<not> solenoid_on (hw ?w0)" and ne: "water_error (hw ?w0) \<noteq> Some ''reservoir_empty''"
    by (simp_all add: initial_world_def initial_hardware_state_def)
  have md: "get_setting Map.empty ''waterSystemMode'' (PyStr ''auto'') = PyStr ''auto''"
    and m: "py_float plain_lib (get_setting Map.empty ''maxFillTime'' (PyInt 600)) = Inr 600"
    by (simp_all add: get_setting_def py_float_def)
  have md3: "get_setting (load_settings plain_lib (settings_rows (low_water_env 703)))
               ''waterSystemMode'' (PyStr ''auto'') = PyStr ''auto''"
    by (simp add: low_water_env_simps load_settings_def get_setting_def)
  have low: "\<not> (\<forall>p \<in> set FLOAT_SENSORS_PINS. \<not> gpio_input_high (low_water_env 100) p)"
    by (auto simp: low_water_env_def example_env_def pin_defs)
  have nf: "\<not> relay_fault (low_water_env 100) SOLENOID_RELAY_PIN"
    and no: "\<not> overflow_detected (low_water_env 100)"
    and mt: "monotonic_time (low_water_env 100) = 100"
    by (simp_all add: low_water_env_simps)
  from auto_fill_start[where w="?w0" and e="low_water_env 100" and app=Map.empty
         and L=plain_lib and m=600 and es="[]", THEN conjunct1] off ne md m low nf no mt
  have p1: "\<exists>w'. water_control plain_lib Map.empty (low_water_env 100) ?w0 = Inr w'
          \<and> solenoid_on (hw w') \<and> solenoid_start_time (hw w') = Some 100"
    by fastforce
  from auto_fill_start[where e="low_water_env 703" and L=plain_lib and ?t1.0=0 and ?t2.0=0
         and ?t3.0=0 and tab=Map.empty and es="[low_water_env 100, low_water_env 701]",
         THEN conjunct2] md3 scenario_empty
  have p2: "\<not> solenoid_on (hw (fst (tick plain_lib (low_water_env 703)
          (run plain_lib ?w0 [low_water_env 100, low_water_env 701]))))"
    by blast
  from p1 p2 scenario_empty show ?thesis by blast
qed

text \<open>
  Claim C6. After any number of ticks from start-up, the start time of the fill is set
  exactly when the solenoid is on. A tick that turns the solenoid from off to on leaves the
  water error cleared, and a tick that leaves the error cleared either found it cleared or
  turned the solenoid from off to on.
\<close>

theorem fill_start_iff_solenoid_on:
  "((solenoid_start_time (hw (run L (initial_world t1 t2 t3 tab) es)) \<noteq> None)
      = solenoid_on (hw (run L (initial_world t1 t2 t3 tab) es)))
   \<and> (\<not> solenoid_on (hw w) \<and> solenoid_on (hw (fst (tick L e w)))
      \<longrightarrow> water_error (hw (fst (tick L e w))) = None)
   \<and> (water_error (hw (fst (tick L e w))) = None
      \<longrightarrow> water_error (hw w) = None
          \<or> \<not> solenoid_on (hw w) \<and> solenoid_on (hw (fst (tick L e w))))"
  using run_fill_inv[of "initial_world t1 t2 t3 tab" L es] initial_invs[of t1 t2 t3 tab]
    tick_error_cleared[of w L e]
  by (simp add: fill_inv_def)

theorem fill_start_iff_solenoid_on_witness:
  "\<not> solenoid_on (hw (initial_world 0 0 0 Map.empty))
   \<and> solenoid_on (hw (fst (tick plain_lib (low_water_env 100) (initial_world 0 0 0 Map.empty))))
   \<and> water_error (hw (fst (tick plain_lib (low_water_env 100) (initial_world 0 0 0 Map.empty))))
       = None
   \<and> solenoid_start_time (hw (run plain_lib (initial_world 0 0 0 Map.empty) [low_water_env 100]))
       \<noteq> None"
proof -
  have off: "\<not> solenoid_on (hw (initial_world 0 0 0 Map.empty))"
    by (simp add: initial_world_def initial_hardware_state_def)
  have on: "solenoid_on (hw (fst (tick plain_lib (low_water_env 100)
                                 (initial_world 0 0 0 Map.empty))))"
    using scenario_fill by (simp add: same_water_def filling_state_def)
  from fill_start_iff_solenoid_on[of plain_lib 0 0 0 Map.empty "[low_water_env 100]"
         "initial_world 0 0 0 Map.empty" "low_water_env 100"] off on
  show ?thesis by simp
qed

subsection \<open>The duty cycle of one channel\<close>

lemma cycle_channel_lengths:
  "length (fst (cycle_channel fault now on_d off_d mode j q st)) = length (fst st)
   \<and> length (fst (snd (cycle_channel fault now on_d off_d mode j q st))) = length (fst (snd st))"
  by (cases st) (simp add: cycle_channel_def)

lemma cycle_channel_ok:
  "channel_ok i (cycle_channel fault now on_d off_d mode j q st) = channel_ok i st"
  by (simp add: channel_ok_def cycle_channel_lengths)

lemma cycle_channel_other_index:
  "j \<noteq> i \<Longrightarrow>
     fst (cycle_channel fault now on_d off_d mode j q st) ! i = fst st ! i
     \<and> fst (snd (cycle_channel fault now on_d off_d mode j q st)) ! i = fst (snd st) ! i"
  by (cases st) (simp add: cycle_channel_def)

lemma cycle_channel_other_pin:
  "q \<noteq> p \<Longrightarrow> snd (snd (cycle_channel fault now on_d off_d mode j q st)) p = snd (snd st) p"
  by (cases st) (simp add: cycle_channel_def toggle_relay_fst_other)

lemma cycle_channel_other_view:
  "j \<noteq> i \<Longrightarrow> q \<noteq> p \<Longrightarrow>
     channel_view i p (cycle_channel fault now on_d off_d mode j q st) = channel_view i p st"
  by (simp add: channel_view_def cycle_channel_other_index cycle_channel_other_pin)

lemma cycle_channel_manual:
  "mode \<noteq> PyStr ''cycle'' \<Longrightarrow>
     fst (cycle_channel fault now on_d off_d mode j q st) = fst st
     \<and> fst (snd (cycle_channel fault now on_d off_d mode j q st)) = fst (snd st)"
  by (cases st) (simp add: cycle_channel_def)

lemma toggle_relay_fst_cong:
  "g p = g' p \<Longrightarrow> fst (toggle_relay fault p d g) p = fst (toggle_relay fault p d g') p"
  by (simp add: toggle_relay_def Let_def)

lemma cycle_channel_view_cong:
  assumes "channel_view i p st = channel_view i p st'" and "channel_ok i st" and "channel_ok i st'"
  shows "channel_view i p (cycle_channel fault now on_d off_d mode i p st)
       = channel_view i p (cycle_channel fault now on_d off_d mode i p st')"
proof -
  obtain a b g where st: "st = (a, b, g)" by (cases st)
  obtain a' b' g' where st': "st' = (a', b', g')" by (cases st')
  from assms st st' have e: "a ! i = a' ! i" "b ! i = b' ! i" "g p = g' p"
    and l: "i < length a" "i < length b" "i < length a'" "i < length b'"
    by (simp_all add: channel_view_def channel_ok_def)
  show ?thesis
    unfolding st st' using e l
      toggle_relay_fst_cong[of g p g' fault True] toggle_relay_fst_cong[of g p g' fault False]
    by (simp add: channel_view_def cycle_channel_def toggle_relay_snd)
qed

lemma cycle_loop_ok:
  "channel_ok i (cycle_loop app key fault now on_d off_d ips st) = channel_ok i st"
proof (induction ips arbitrary: st)
  case Nil
  then show ?case by simp
next
  case (Cons jq ips)
  obtain j q where jq: "jq = (j, q)" by (cases jq)
  show ?case unfolding jq cycle_loop.simps Cons.IH by (rule cycle_channel_ok)
qed

lemma cycle_loop_other_view:
  "i \<notin> fst ` set ips \<Longrightarrow> p \<notin> snd ` set ips \<Longrightarrow>
     channel_view i p (cycle_loop app key fault now on_d off_d ips st) = channel_view i p st"
proof (induction ips arbitrary: st)
  case Nil
  then show ?case by simp
next
  case (Cons jq ips)
  obtain j q where jq: "jq = (j, q)" by (cases jq)
  from Cons.prems jq have ne: "j \<noteq> i" "q \<noteq> p" by auto
  from Cons.prems have "i \<notin> fst ` set ips" "p \<notin> snd ` set ips" by auto
  from Cons.IH[OF this] show ?case
    by (simp add: jq cycle_channel_other_view[OF ne])
qed

text \<open>
  The loop acts on a channel as its own iteration does: the other iterations touch neither
  its two list entries nor its pin.
\<close>

lemma cycle_loop_view:
  assumes "distinct (map fst ips)" and "distinct (map snd ips)" and "(i, p) \<in> set ips"
    and "channel_ok i st"
  shows "channel_view i p (cycle_loop app key fault now on_d off_d ips st)
       = channel_view i p (cycle_channel fault now on_d off_d
           (get_setting app (key @ str_nat (i + 1)) (PyStr ''cycle'')) i p st)"
  using assms
proof (induction ips arbitrary: st)
  case Nil
  then show ?case by simp
next
  case (Cons jq ips)
  obtain j q where jq: "jq = (j, q)" by (cases jq)
  let ?st1 = "cycle_channel fault now on_d off_d
                (get_setting app (key @ str_nat (j + 1)) (PyStr ''cycle'')) j q st"
  show ?case
  proof (cases "(j, q) = (i, p)")
    case True
    with Cons.prems jq have "i \<notin> fst ` set ips" "p \<notin> snd ` set ips" by auto
    from cycle_loop_other_view[OF this] True show ?thesis by (simp add: jq)
  next
    case False
    with Cons.prems jq have mem: "(i, p) \<in> set ips" by auto
    from Cons.prems jq mem have ne: "j \<noteq> i" "q \<noteq> p" by force+
    from Cons.prems have d: "distinct (map fst ips)" "distinct (map snd ips)" by auto
    have ok1: "channel_ok i ?st1" using Cons.prems(4) by (simp add: cycle_channel_ok)
    have v: "channel_view i p ?st1 = channel_view i p st"
      by (rule cycle_channel_other_view[OF ne])
    have "channel_view i p (cycle_loop app key fault now on_d off_d ips ?st1)
        = channel_view i p (cycle_channel fault now on_d off_d
           (get_setting app (key @ str_nat (i + 1)) (PyStr ''cycle'')) i p ?st1)"
      by (rule Cons.IH[OF d mem ok1])
    also have "\<dots> = channel_view i p (cycle_channel fault now on_d off_d
           (get_setting app (key @ str_nat (i + 1)) (PyStr ''cycle'')) i p st)"
      by (rule cycle_channel_view_cong[OF v ok1 Cons.prems(4)])
    finally show ?thesis by (simp add: jq)
  qed
qed

lemma cycle_loop_manual:
  "get_setting app (key @ str_nat (i + 1)) (PyStr ''cycle'') \<noteq> PyStr ''cycle'' \<Longrightarrow>
     fst (cycle_loop app key fault now on_d off_d ips st) ! i = fst st ! i
     \<and> fst (snd (cycle_loop app key fault now on_d off_d ips st)) ! i = fst (snd st) ! i"
proof (induction ips arbitrary: st)
  case Nil
  then show ?case by simp
next
  case (Cons jq ips)
  obtain j q where jq: "jq = (j, q)" by (cases jq)
  show ?case
  proof (cases "j = i")
    case True
    with Cons jq show ?thesis by (simp add: cycle_channel_manual)
  next
    case False
    with Cons jq show ?thesis by (simp add: cycle_channel_other_index)
  qed
qed

lemma enumerate_mem: "i < length xs \<Longrightarrow> (i, xs ! i) \<in> set (enumerate 0 xs)"
  by (simp add: in_set_enumerate_eq)

lemma enumerate_distinct:
  "distinct (map fst (enumerate 0 xs)) \<and> (distinct xs \<longrightarrow> distinct (map snd (enumerate 0 xs)))"
  by simp

lemma cycle_pins_distinct: "distinct PUMPS_PINS \<and> distinct CIRCULATION_FANS_PINS"
  by (simp add: pin_defs)

subsection \<open>The frame of a tick\<close>

text \<open>
  A relation between worlds that every step of a tick respects is respected by the tick,
  completed or aborted.
\<close>

lemma tick_preserves:
  fixes R :: "world \<Rightarrow> world \<Rightarrow> bool"
  assumes app_def: "app = load_settings L (settings_rows e)"
    and refl: "\<And>v. R v v" and trans: "\<And>a b c. R a b \<Longrightarrow> R b c \<Longrightarrow> R a c"
    and tab: "\<And>v x. R v (v\<lparr>settings_tab := x\<rparr>)"
    and s1: "\<And>v v'. lights_step L app e v = Inr v' \<Longrightarrow> R v v'"
    and s2: "\<And>v v'. pumps_step L app e v = Inr v' \<Longrightarrow> R v v'"
    and s3: "\<And>v v'. circulation_step L app e v = Inr v' \<Longrightarrow> R v v'"
    and s4: "\<And>v v'. exhaust_step L app e v = Inr v' \<Longrightarrow> R v v'"
    and s5: "\<And>v v'. water_control L app e v = Inr v' \<Longrightarrow> R v v'"
    and s6: "\<And>v. R v (log_step e (aggregate (dht_reads e)) v)"
  shows "R w (fst (tick L e w))"
proof (cases "db_load_fails e")
  case True
  then show ?thesis by (simp add: tick_def refl)
next
  case False
  define w0 where "w0 = w\<lparr>settings_tab := settings_rows e\<rparr>"
  have r0: "R w w0" unfolding w0_def by (rule tab)
  have t: "tick L e w =
     (case lights_step L app e w0 of Inl x \<Rightarrow> (w0, Aborted x) | Inr w1 \<Rightarrow>
     (case pumps_step L app e w1 of Inl x \<Rightarrow> (w1, Aborted x) | Inr w2 \<Rightarrow>
     (case circulation_step L app e w2 of Inl x \<Rightarrow> (w2, Aborted x) | Inr w3 \<Rightarrow>
     (case exhaust_step L app e w3 of Inl x \<Rightarrow> (w3, Aborted x) | Inr w4 \<Rightarrow>
     (case water_control L app e w4 of Inl x \<Rightarrow> (w4, Aborted x) | Inr w5 \<Rightarrow>
        (log_step e (aggregate (dht_reads e)) w5, Completed))))))"
    unfolding app_def w0_def using False by (simp add: tick_def Let_def)
  show ?thesis
  proof (cases "lights_step L app e w0")
    case (Inl x)
    with t r0 show ?thesis by simp
  next
    case l: (Inr w1)
    have r1: "R w w1" using r0 s1[OF l] by (rule trans)
    show ?thesis
    proof (cases "pumps_step L app e w1")
      case (Inl x)
      with t l r1 show ?thesis by simp
    next
      case p: (Inr w2)
      have r2: "R w w2" using r1 s2[OF p] by (rule trans)
      show ?thesis
      proof (cases "circulation_step L app e w2")
        case (Inl x)
        with t l p r2 show ?thesis by simp
      next
        case c: (Inr w3)
        have r3: "R w w3" using r2 s3[OF c] by (rule trans)
        show ?thesis
        proof (cases "exhaust_step L app e w3")
          case (Inl x)
          with t l p c r3 show ?thesis by simp
        next
          case x: (Inr w4)
          have r4: "R w w4" using r3 s4[OF x] by (rule trans)
          show ?thesis
          proof (cases "water_control L app e w4")
            case (Inl y)
            with t l p c x r4 show ?thesis by simp
          next
            case wc: (Inr w5)
            have r5: "R w w5" using r4 s5[OF wc] by (rule trans)
            have "R w (log_step e (aggregate (dht_reads e)) w5)" using r5 s6 by (rule trans)
            with t l p c x wc show ?thesis by simp
          qed
        qed
      qed
    qed
  qed
qed

lemma pumps_step_result:
  "pumps_step L app e w = Inr w' \<Longrightarrow>
     \<exists>on_d off_d.
        cycle_loop app ''pumpMode'' (relay_fault e) (monotonic_time e) on_d off_d
          (enumerate 0 PUMPS_PINS) (pumps_on (hw w), last_pumps_toggle (hw w), relays w)
        = (pumps_on (hw w'), last_pumps_toggle (hw w'), relays w')"
  by (fastforce simp: pumps_step_def pumps_control_def split: sum.splits prod.splits)

lemma circulation_step_result:
  "circulation_step L app e w = Inr w' \<Longrightarrow>
     \<exists>on_d off_d.
        cycle_loop app ''circulationFanMode'' (relay_fault e) (monotonic_time e) on_d off_d
          (enumerate 0 CIRCULATION_FANS_PINS)
          (circulation_fans_on (hw w), last_circulation_fans_toggle (hw w), relays w)
        = (circulation_fans_on (hw w'), last_circulation_fans_toggle (hw w'), relays w')"
  by (fastforce simp: circulation_step_def circulation_fans_control_def
        split: sum.splits prod.splits)

lemma water_control_frame:
  "water_control L app e v = Inr v' \<Longrightarrow>
     pumps_on (hw v') = pumps_on (hw v) \<and> last_pumps_toggle (hw v') = last_pumps_toggle (hw v)
     \<and> circulation_fans_on (hw v') = circulation_fans_on (hw v)
     \<and> last_circulation_fans_toggle (hw v') = last_circulation_fans_toggle (hw v)
     \<and> exhaust_fans_on (hw v') = exhaust_fans_on (hw v)"
  by (auto simp: water_control_def Let_def water_engine_frame split: sum.splits)

lemma tick_pumps_manual:
  assumes "get_setting (load_settings L (settings_rows e)) (''pumpMode'' @ str_nat (i + 1))
             (PyStr ''cycle'') \<noteq> PyStr ''cycle''"
  shows "pumps_on (hw (fst (tick L e w))) ! i = pumps_on (hw w) ! i
       \<and> last_pumps_toggle (hw (fst (tick L e w))) ! i = last_pumps_toggle (hw w) ! i"
proof (rule tick_preserves[where R="\<lambda>v v'. pumps_on (hw v') ! i = pumps_on (hw v) ! i
         \<and> last_pumps_toggle (hw v') ! i = last_pumps_toggle (hw v) ! i"
         and app="load_settings L (settings_rows e)"])
  fix v v'
  assume "pumps_step L (load_settings L (settings_rows e)) e v = Inr v'"
  from pumps_step_result[OF this] obtain on_d off_d where
    r: "cycle_loop (load_settings L (settings_rows e)) ''pumpMode'' (relay_fault e)
          (monotonic_time e) on_d off_d (enumerate 0 PUMPS_PINS)
          (pumps_on (hw v), last_pumps_toggle (hw v), relays v)
        = (pumps_on (hw v'), last_pumps_toggle (hw v'), relays v')" by blast
  from cycle_loop_manual[OF assms, of "relay_fault e" "monotonic_time e" on_d off_d
         "enumerate 0 PUMPS_PINS" "(pumps_on (hw v), last_pumps_toggle (hw v), relays v)"]
  show "pumps_on (hw v') ! i = pumps_on (hw v) ! i
         \<and> last_pumps_toggle (hw v') ! i = last_pumps_toggle (hw v) ! i"
    unfolding r by simp
qed (simp_all add: lights_step_hw exhaust_step_hw circulation_step_hw water_control_frame
       log_step_hw)

lemma tick_circulation_manual:
  assumes "get_setting (load_settings L (settings_rows e))
             (''circulationFanMode'' @ str_nat (i + 1)) (PyStr ''cycle'') \<noteq> PyStr ''cycle''"
  shows "circulation_fans_on (hw (fst (tick L e w))) ! i = circulation_fans_on (hw w) ! i
       \<and> last_circulation_fans_toggle (hw (fst (tick L e w))) ! i
           = last_circulation_fans_toggle (hw w) ! i"
proof (rule tick_preserves[where R="\<lambda>v v'.
           circulation_fans_on (hw v') ! i = circulation_fans_on (hw v) ! i
         \<and> last_circulation_fans_toggle (hw v') ! i = last_circulation_fans_toggle (hw v) ! i"
         and app="load_settings L (settings_rows e)"])
  fix v v'
  assume "circulation_step L (load_settings L (settings_rows e)) e v = Inr v'"
  from circulation_step_result[OF this] obtain on_d off_d where
    r: "cycle_loop (load_settings L (settings_rows e)) ''circulationFanMode'' (relay_fault e)
          (monotonic_time e) on_d off_d (enumerate 0 CIRCULATION_FANS_PINS)
          (circulation_fans_on (hw v), last_circulation_fans_toggle (hw v), relays v)
        = (circulation_fans_on (hw v'), last_circulation_fans_toggle (hw v'), relays v')"
    by blast
  from cycle_loop_manual[OF assms, of "relay_fault e" "monotonic_time e" on_d off_d
         "enumerate 0 CIRCULATION_FANS_PINS"
         "(circulation_fans_on (hw v), last_circulation_fans_toggle (hw v), relays v)"]
  show "circulation_fans_on (hw v') ! i = circulation_fans_on (hw v) ! i
         \<and> last_circulation_fans_toggle (hw v') ! i = last_circulation_fans_toggle (hw v) ! i"
    unfolding r by simp
qed (simp_all add: lights_step_hw exhaust_step_hw pumps_step_hw water_control_frame
       log_step_hw)

lemma override_example:
  "(case pumps_control plain_lib (load_settings plain_lib [''pumpMode1'' \<mapsto> ''on''])
           (\<lambda>p. False) 10 (replicate 5 False, replicate 5 0, (\<lambda>p. False)) of
      Inl x \<Rightarrow> False
    | Inr st \<Rightarrow> \<not> fst st ! 0 \<and> fst (snd st) ! 0 = 0 \<and> snd (snd st) 27
        \<and> (case pumps_control plain_lib Map.empty (\<lambda>p. False) 20 st of
             Inl x \<Rightarrow> False
           | Inr st' \<Rightarrow> \<not> fst st' ! 0 \<and> fst (snd st') ! 0 = 0 \<and> snd (snd st') 27))"
  by (simp add: pumps_control_def load_settings_def get_setting_def convert_value_def py_float_def
        lib_defs pin_defs cycle_channel_def toggle_relay_def str_nat.simps)

text \<open>
  Claim C7. In mode \<^verbatim>\<open>cycle\<close>, for a pump or a circulation fan with state
  \<open>(is_on, last_toggle)\<close>: when it is on and at least the on duration has passed since the
  last toggle, it is switched off and the last toggle becomes the time of the tick; when it
  is off and at least the off duration has passed, it is switched on and the last toggle
  becomes the time of the tick (the relay access not raising); otherwise both entries and the
  relay stay as they are.
\<close>

theorem cycle_mode_step:
  assumes "key = ''pumpMode'' \<and> pins = PUMPS_PINS
           \<or> key = ''circulationFanMode'' \<and> pins = CIRCULATION_FANS_PINS"
    and "i < length pins" and "i < length ons" and "i < length toggles"
    and "get_setting app (key @ str_nat (i + 1)) (PyStr ''cycle'') = PyStr ''cycle''"
  shows "let st' = cycle_loop app key fault now on_duration off_duration (enumerate 0 pins)
                     (ons, toggles, gpio);
             p = pins ! i
         in (ons ! i \<and> now - toggles ! i \<ge> on_duration \<longrightarrow>
               \<not> fst st' ! i \<and> fst (snd st') ! i = now \<and> (\<not> fault p \<longrightarrow> \<not> snd (snd st') p))
          \<and> (\<not> ons ! i \<and> now - toggles ! i \<ge> off_duration \<and> \<not> fault p \<longrightarrow>
               fst st' ! i \<and> fst (snd st') ! i = now \<and> snd (snd st') p)
          \<and> (\<not> (ons ! i \<and> now - toggles ! i \<ge> on_duration)
              \<and> \<not> (\<not> ons ! i \<and> now - toggles ! i \<ge> off_duration) \<longrightarrow>
               fst st' ! i = ons ! i \<and> fst (snd st') ! i = toggles ! i
             \<and> snd (snd st') p = gpio p)"
proof -
  from assms(1) cycle_pins_distinct have d: "distinct pins" by auto
  have ok: "channel_ok i (ons, toggles, gpio)"
    using assms(3,4) by (simp add: channel_ok_def)
  have v: "channel_view i (pins ! i)
             (cycle_loop app key fault now on_duration off_duration (enumerate 0 pins)
                (ons, toggles, gpio))
         = channel_view i (pins ! i)
             (cycle_channel fault now on_duration off_duration (PyStr ''cycle'') i (pins ! i)
                (ons, toggles, gpio))"
    using cycle_loop_view[OF _ _ enumerate_mem[OF assms(2)] ok, of app key fault now
            on_duration off_duration] d assms(5)
    by simp
  show ?thesis
    using v assms(3,4)
    by (simp add: Let_def channel_view_def cycle_channel_def toggle_relay_snd
          toggle_relay_fst_pin toggle_relay_def)
qed

theorem cycle_mode_step_witness:
  "(let st' = cycle_loop Map.empty ''pumpMode'' (\<lambda>p. False) 3699 900 2700
                (enumerate 0 PUMPS_PINS) (replicate 5 False, replicate 5 1000, (\<lambda>p. False))
    in \<not> fst st' ! 0 \<and> fst (snd st') ! 0 = 1000 \<and> \<not> snd (snd st') 27)
   \<and> (let st' = cycle_loop Map.empty ''pumpMode'' (\<lambda>p. False) 3700 900 2700
                (enumerate 0 PUMPS_PINS) (replicate 5 False, replicate 5 1000, (\<lambda>p. False))
    in fst st' ! 0 \<and> fst (snd st') ! 0 = 3700 \<and> snd (snd st') 27)
   \<and> (let st' = cycle_loop Map.empty ''circulationFanMode'' (\<lambda>p. False) 2800 1800 1800
                (enumerate 0 CIRCULATION_FANS_PINS) ([False, True], [1000, 1000], (\<lambda>p. p = 26))
    in \<not> fst st' ! 1 \<and> fst (snd st') ! 1 = 2800 \<and> \<not> snd (snd st') 26)"
proof -
  have k: "get_setting Map.empty (''pumpMode'' @ str_nat (0 + 1)) (PyStr ''cycle'')
             = PyStr ''cycle''"
    "get_setting Map.empty (''circulationFanMode'' @ str_nat (1 + 1)) (PyStr ''cycle'')
             = PyStr ''cycle''"
    by (simp_all add: get_setting_def)
  have a: "let st' = cycle_loop Map.empty ''pumpMode'' (\<lambda>p. False) 3699 900 2700
                (enumerate 0 PUMPS_PINS) (replicate 5 False, replicate 5 1000, (\<lambda>p. False))
    in \<not> fst st' ! 0 \<and> fst (snd st') ! 0 = 1000 \<and> \<not> snd (snd st') 27"
    using cycle_mode_step[where key="''pumpMode''" and pins=PUMPS_PINS and i=0
        and ons="replicate 5 False" and toggles="replicate 5 1000" and app=Map.empty
        and fault="\<lambda>p. False" and now=3699 and on_duration=900 and off_duration=2700
        and gpio="\<lambda>p. False"] k(1)
    by (simp add: Let_def pin_defs)
  have b: "let st' = cycle_loop Map.empty ''pumpMode'' (\<lambda>p. False) 3700 900 2700
                (enumerate 0 PUMPS_PINS) (replicate 5 False, replicate 5 1000, (\<lambda>p. False))
    in fst st' ! 0 \<and> fst (snd st') ! 0 = 3700 \<and> snd (snd st') 27"
    using cycle_mode_step[where key="''pumpMode''" and pins=PUMPS_PINS and i=0
        and ons="replicate 5 False" and toggles="replicate 5 1000" and app=Map.empty
        and fault="\<lambda>p. False" and now=3700 and on_duration=900 and off_duration=2700
        and gpio="\<lambda>p. False"] k(1)
    by (simp add: Let_def pin_defs)
  have c: "let st' = cycle_loop Map.empty ''circulationFanMode'' (\<lambda>p. False) 2800 1800 1800
                (enumerate 0 CIRCULATION_FANS_PINS) ([False, True], [1000, 1000], (\<lambda>p. p = 26))
    in \<not> fst st' ! 1 \<and> fst (snd st') ! 1 = 2800 \<and> \<not> snd (snd st') 26"
    using cycle_mode_step[where key="''circulationFanMode''" and pins=CIRCULATION_FANS_PINS
        and i=1 and ons="[False, True]" and toggles="[1000, 1000]" and app=Map.empty
        and fault="\<lambda>p. False" and now=2800 and on_duration=1800 and off_duration=1800
        and gpio="\<lambda>p. p = 26"] k(2)
    by (simp add: Let_def pin_defs)
  from a b c show ?thesis by blast
qed

text \<open>
  Claim C10. A tick leaves the two entries of a pump or of a circulation fan as they were
  whenever the mode of that channel is not \<^verbatim>\<open>cycle\<close>, so in particular in the modes
  \<^verbatim>\<open>on\<close> and \<^verbatim>\<open>off\<close>. The last part runs the pump loop on pump 1: after a tick in
  mode \<^verbatim>\<open>on\<close> the relay is on while the tracked flag is still off and the last toggle is
  the one from before, and a later tick back in mode \<^verbatim>\<open>cycle\<close> goes on from there.
\<close>

theorem manual_mode_keeps_cycle_state:
  "(get_setting (load_settings L (settings_rows e)) (''pumpMode'' @ str_nat (i + 1))
       (PyStr ''cycle'') \<noteq> PyStr ''cycle''
    \<longrightarrow> pumps_on (hw (fst (tick L e w))) ! i = pumps_on (hw w) ! i
      \<and> last_pumps_toggle (hw (fst (tick L e w))) ! i = last_pumps_toggle (hw w) ! i)
   \<and> (get_setting (load_settings L (settings_rows e)) (''circulationFanMode'' @ str_nat (i + 1))
       (PyStr ''cycle'') \<noteq> PyStr ''cycle''
    \<longrightarrow> circulation_fans_on (hw (fst (tick L e w))) ! i = circulation_fans_on (hw w) ! i
      \<and> last_circulation_fans_toggle (hw (fst (tick L e w))) ! i
          = last_circulation_fans_toggle (hw w) ! i)
   \<and> (case pumps_control plain_lib (load_settings plain_lib [''pumpMode1'' \<mapsto> ''on''])
           (\<lambda>p. False) 10 (replicate 5 False, replicate 5 0, (\<lambda>p. False)) of
      Inl x \<Rightarrow> False
    | Inr st \<Rightarrow> \<not> fst st ! 0 \<and> fst (snd st) ! 0 = 0 \<and> snd (snd st) 27
        \<and> (case pumps_control plain_lib Map.empty (\<lambda>p. False) 20 st of
             Inl x \<Rightarrow> False
           | Inr st' \<Rightarrow> \<not> fst st' ! 0 \<and> fst (snd st') ! 0 = 0 \<and> snd (snd st') 27))"
  using tick_pumps_manual[of L e i w] tick_circulation_manual[of L e i w] override_example
  by blast

theorem manual_mode_keeps_cycle_state_witness:
  "get_setting (load_settings plain_lib
       (settings_rows (example_env [''pumpMode1'' \<mapsto> ''on'', ''circulationFanMode2'' \<mapsto> ''off''] 5000)))
     (''pumpMode'' @ str_nat (0 + 1)) (PyStr ''cycle'') \<noteq> PyStr ''cycle''
   \<and> \<not> pumps_on (hw (fst (tick plain_lib
          (example_env [''pumpMode1'' \<mapsto> ''on'', ''circulationFanMode2'' \<mapsto> ''off''] 5000)
          (initial_world 0 0 0 Map.empty)))) ! 0
   \<and> last_pumps_toggle (hw (fst (tick plain_lib
          (example_env [''pumpMode1'' \<mapsto> ''on'', ''circulationFanMode2'' \<mapsto> ''off''] 5000)
          (initial_world 0 0 0 Map.empty)))) ! 0 = 0
   \<and> \<not> circulation_fans_on (hw (fst (tick plain_lib
          (example_env [''pumpMode1'' \<mapsto> ''on'', ''circulationFanMode2'' \<mapsto> ''off''] 5000)
          (initial_world 0 0 0 Map.empty)))) ! 1"
proof -
  let ?e = "example_env [''pumpMode1'' \<mapsto> ''on'', ''circulationFanMode2'' \<mapsto> ''off''] 5000"
  have p: "get_setting (load_settings plain_lib (settings_rows ?e))
             (''pumpMode'' @ str_nat (0 + 1)) (PyStr ''cycle'') \<noteq> PyStr ''cycle''"
    by (simp add: example_env_def load_settings_def get_setting_def convert_value_def lib_defs
          str_nat.simps)
  have c: "get_setting (load_settings plain_lib (settings_rows ?e))
             (''circulationFanMode'' @ str_nat (1 + 1)) (PyStr ''cycle'') \<noteq> PyStr ''cycle''"
    by (simp add: example_env_def load_settings_def get_setting_def convert_value_def lib_defs
          str_nat.simps)
  have i: "\<not> pumps_on (hw (initial_world 0 0 0 Map.empty)) ! 0"
    "last_pumps_toggle (hw (initial_world 0 0 0 Map.empty)) ! 0 = 0"
    "\<not> circulation_fans_on (hw (initial_world 0 0 0 Map.empty)) ! 1"
    by (simp_all add: initial_world_def initial_hardware_state_def pin_defs)
  from manual_mode_keeps_cycle_state[of plain_lib ?e 0 "initial_world 0 0 0 Map.empty"]
       manual_mode_keeps_cycle_state[of plain_lib ?e 1 "initial_world 0 0 0 Map.empty"] p c i
  show ?thesis by simp
qed

subsection \<open>Logging\<close>

lemma aggregate_None: "(aggregate ds = None) = (valid_readings ds = [])"
  by (simp add: aggregate_def Let_def)

lemma settings_parse_log_flag:
  "settings_parse L (e\<lparr>db_log_fails := b\<rparr>) = settings_parse L e"
  by (simp add: settings_parse_def)

subsection \<open>The exhaust fans\<close>

lemma tick_exhaust_fans_on:
  "exhaust_fans_on (hw (fst (tick L e w))) = exhaust_fans_on (hw w)"
  by (rule tick_preserves[where R="\<lambda>v v'. exhaust_fans_on (hw v') = exhaust_fans_on (hw v)"
        and app="load_settings L (settings_rows e)"])
     (simp_all add: lights_step_hw exhaust_step_hw pumps_step_hw circulation_step_hw
        water_control_frame log_step_hw)

lemma run_exhaust_fans_on:
  "exhaust_fans_on (hw (run L w es)) = exhaust_fans_on (hw w)"
  by (induction es arbitrary: w) (simp_all add: tick_exhaust_fans_on)

text \<open>
  Claim C2, on the code. The list \<^verbatim>\<open>exhaust_fans_on\<close> of the hardware state is
  read at line 314 as the previous state of the fans, and no tick ever writes it: after any
  number of ticks it is still the start-up list of two \<open>False\<close>. So in the dead band the
  decision is off, not the state the fans are in: with both fan relays on, 25 degrees
  (between 23 and 27) and 50 percent humidity (below 55), the loop switches both fans off.
\<close>

theorem exhaust_dead_band_drops:
  "exhaust_fans_on (hw (run plain_lib (initial_world 0 0 0 Map.empty) es)) = [False, False]
   \<and> \<not> should_auto_on (exhaust_fans_on (hw (run plain_lib (initial_world 0 0 0 Map.empty) es)))
         25 50 27 23 65 55
   \<and> (case exhaust_fans_control plain_lib Map.empty (\<lambda>p. False)
             (exhaust_fans_on (hw (run plain_lib (initial_world 0 0 0 Map.empty) es)))
             (Some (25, 50)) (\<lambda>p. p = 13 \<or> p = 16) of
        Inl x \<Rightarrow> False
      | Inr gpio \<Rightarrow> \<not> gpio 13 \<and> \<not> gpio 16)"
proof -
  have a: "exhaust_fans_on (hw (run plain_lib (initial_world 0 0 0 Map.empty) es))
             = [False, False]"
    by (simp add: run_exhaust_fans_on initial_world_def initial_hardware_state_def pin_defs)
  show ?thesis
    unfolding a
    by (simp add: should_auto_on_def exhaust_fans_control_def get_setting_def py_float_def
          pin_defs toggle_relay_def str_nat.simps)
qed

subsection \<open>Where a tick stops\<close>

lemma settings_parse_reaches:
  "settings_parse L e =
     (reaches_water L e
      \<and> float_ok L (load_settings L (settings_rows e)) ''maxFillTime'' (PyInt 600))"
  unfolding settings_parse_def reaches_water_def Let_def by blast

lemma py_float_error: "py_float L v = Inl x \<Longrightarrow> x = ValueError \<or> x = OverflowError"
  by (cases v) (auto simp: py_float_def split: option.splits if_splits)

lemma parse_time_error: "parse_time L v = Inl x \<Longrightarrow> x = ValueError"
  by (auto simp: parse_time_def split: pyval.splits option.splits)

lemma lights_step_error:
  "lights_step L app e w = Inl x \<Longrightarrow> x = ValueError \<or> x = OverflowError"
  by (auto simp: lights_step_def lights_control_def lights_schedule_def
        split: sum.splits dest: parse_time_error)

lemma pumps_step_error:
  "pumps_step L app e w = Inl x \<Longrightarrow> x = ValueError \<or> x = OverflowError"
  by (auto simp: pumps_step_def pumps_control_def split: sum.splits prod.splits
        dest: py_float_error)

lemma circulation_step_error:
  "circulation_step L app e w = Inl x \<Longrightarrow> x = ValueError \<or> x = OverflowError"
  by (auto simp: circulation_step_def circulation_fans_control_def split: sum.splits prod.splits
        dest: py_float_error)

lemma exhaust_fans_control_error:
  "exhaust_fans_control L app fault fans reading gpio = Inl x \<Longrightarrow>
     x = ValueError \<or> x = OverflowError"
proof (cases reading)
  case None
  then show "exhaust_fans_control L app fault fans reading gpio = Inl x \<Longrightarrow>
     x = ValueError \<or> x = OverflowError"
    by (simp add: exhaust_fans_control_def)
next
  case (Some th)
  obtain t h where th: "th = (t, h)" by (cases th)
  assume a: "exhaust_fans_control L app fault fans reading gpio = Inl x"
  show "x = ValueError \<or> x = OverflowError"
  proof (cases "py_float L (get_setting app ''exhaustFanTempHigh'' (PyFloat 27))")
    case (Inl y)
    with a Some th py_float_error[OF Inl] show ?thesis by (simp add: exhaust_fans_control_def)
  next
    case r1: (Inr a1)
    show ?thesis
    proof (cases "py_float L (get_setting app ''exhaustFanTempLow'' (PyFloat 23))")
      case (Inl y)
      with a Some th r1 py_float_error[OF Inl] show ?thesis
        by (simp add: exhaust_fans_control_def)
    next
      case r2: (Inr a2)
      show ?thesis
      proof (cases "py_float L (get_setting app ''exhaustFanHumidHigh'' (PyFloat 65))")
        case (Inl y)
        with a Some th r1 r2 py_float_error[OF Inl] show ?thesis
          by (simp add: exhaust_fans_control_def)
      next
        case r3: (Inr a3)
        show ?thesis
        proof (cases "py_float L (get_setting app ''exhaustFanHumidLow'' (PyFloat 55))")
          case (Inl y)
          with a Some th r1 r2 r3 py_float_error[OF Inl] show ?thesis
            by (simp add: exhaust_fans_control_def)
        next
          case (Inr a4)
          with a Some th r1 r2 r3 show ?thesis by (simp add: exhaust_fans_control_def)
        qed
      qed
    qed
  qed
qed

lemma exhaust_step_error:
  "exhaust_step L app e w = Inl x \<Longrightarrow> x = ValueError \<or> x = OverflowError"
  by (auto simp: exhaust_step_def split: sum.splits dest: exhaust_fans_control_error)

lemma water_control_error:
  "water_control L app e w = Inl x \<Longrightarrow>
     py_float L (get_setting app ''maxFillTime'' (PyInt 600)) = Inl x"
  by (auto simp: water_control_def Let_def split: sum.splits)

text \<open>
  The four ways a tick can go: the table cannot be read; a setting read before the water
  step does not convert; \<^verbatim>\<open>maxFillTime\<close> does not convert; or the water step and the
  logging step run. \<open>R\<close> is any relation that the steps before the water step respect.
\<close>

lemma tick_split:
  fixes R :: "world \<Rightarrow> world \<Rightarrow> bool"
  assumes app_def: "app = load_settings L (settings_rows e)"
    and refl: "\<And>v. R v v" and trans: "\<And>a b c. R a b \<Longrightarrow> R b c \<Longrightarrow> R a c"
    and tab: "\<And>v x. R v (v\<lparr>settings_tab := x\<rparr>)"
    and s1: "\<And>v v'. lights_step L app e v = Inr v' \<Longrightarrow> R v v'"
    and s2: "\<And>v v'. pumps_step L app e v = Inr v' \<Longrightarrow> R v v'"
    and s3: "\<And>v v'. circulation_step L app e v = Inr v' \<Longrightarrow> R v v'"
    and s4: "\<And>v v'. exhaust_step L app e v = Inr v' \<Longrightarrow> R v v'"
  shows "\<exists>v. R w v \<and>
     ((\<exists>x. tick L e w = (v, Aborted x)
         \<and> (db_load_fails e \<and> x = DatabaseError
            \<or> \<not> db_load_fails e \<and> \<not> reaches_water L e \<and> (x = ValueError \<or> x = OverflowError)
            \<or> \<not> db_load_fails e \<and> reaches_water L e
                \<and> py_float L (get_setting app ''maxFillTime'' (PyInt 600)) = Inl x))
      \<or> (\<exists>v5. \<not> db_load_fails e \<and> reaches_water L e \<and> water_control L app e v = Inr v5
            \<and> tick L e w = (log_step e (aggregate (dht_reads e)) v5, Completed)))"
proof (cases "db_load_fails e")
  case True
  then have "tick L e w = (w, Aborted DatabaseError)" by (simp add: tick_def)
  with True refl[of w] show ?thesis by blast
next
  case False
  define w0 where "w0 = w\<lparr>settings_tab := settings_rows e\<rparr>"
  define P1 where "P1 = (time_ok L app ''lightsOnTime'' (PyStr ''06:00'')
         \<and> time_ok L app ''lightsOffTime'' (PyStr ''22:00''))"
  define P2 where "P2 = (float_ok L app ''pumpOnDuration'' (PyInt 900)
         \<and> float_ok L app ''pumpOffDuration'' (PyInt 2700))"
  define P3 where "P3 = (float_ok L app ''circulationFanOnDuration'' (PyInt 1800)
         \<and> float_ok L app ''circulationFanOffDuration'' (PyInt 1800))"
  define P4 where "P4 = (aggregate (dht_reads e) = None
         \<or> float_ok L app ''exhaustFanTempHigh'' (PyFloat 27)
           \<and> float_ok L app ''exhaustFanTempLow'' (PyFloat 23)
           \<and> float_ok L app ''exhaustFanHumidHigh'' (PyFloat 65)
           \<and> float_ok L app ''exhaustFanHumidLow'' (PyFloat 55))"
  have rw: "reaches_water L e = (P1 \<and> P2 \<and> P3 \<and> P4)"
    unfolding reaches_water_def Let_def P1_def P2_def P3_def P4_def app_def by blast
  have i1: "\<And>v. isl (lights_step L app e v) = (\<not> P1)"
    unfolding P1_def by (rule lights_step_isl)
  have i2: "\<And>v. isl (pumps_step L app e v) = (\<not> P2)"
    unfolding P2_def by (rule pumps_step_isl)
  have i3: "\<And>v. isl (circulation_step L app e v) = (\<not> P3)"
    unfolding P3_def by (rule circulation_step_isl)
  have i4: "\<And>v. isl (exhaust_step L app e v) = (\<not> P4)"
    unfolding P4_def by (rule exhaust_step_isl)
  have r0: "R w w0" unfolding w0_def by (rule tab)
  have t: "tick L e w =
     (case lights_step L app e w0 of Inl x \<Rightarrow> (w0, Aborted x) | Inr w1 \<Rightarrow>
     (case pumps_step L app e w1 of Inl x \<Rightarrow> (w1, Aborted x) | Inr w2 \<Rightarrow>
     (case circulation_step L app e w2 of Inl x \<Rightarrow> (w2, Aborted x) | Inr w3 \<Rightarrow>
     (case exhaust_step L app e w3 of Inl x \<Rightarrow> (w3, Aborted x) | Inr w4 \<Rightarrow>
     (case water_control L app e w4 of Inl x \<Rightarrow> (w4, Aborted x) | Inr w5 \<Rightarrow>
        (log_step e (aggregate (dht_reads e)) w5, Completed))))))"
    unfolding app_def w0_def using False by (simp add: tick_def Let_def)
  show ?thesis
  proof (cases "lights_step L app e w0")
    case (Inl x)
    have "tick L e w = (w0, Aborted x)" using t Inl by simp
    moreover have "\<not> reaches_water L e" using i1[of w0] Inl rw by simp
    moreover note lights_step_error[OF Inl] r0 False
    ultimately show ?thesis by blast
  next
    case l: (Inr w1)
    have r1: "R w w1" using r0 s1[OF l] by (rule trans)
    from i1[of w0] l have p1: "P1" by simp
    show ?thesis
    proof (cases "pumps_step L app e w1")
      case (Inl x)
      have "tick L e w = (w1, Aborted x)" using t l Inl by simp
      moreover have "\<not> reaches_water L e" using i2[of w1] Inl rw by simp
      moreover note pumps_step_error[OF Inl] r1 False
      ultimately show ?thesis by blast
    next
      case p: (Inr w2)
      have r2: "R w w2" using r1 s2[OF p] by (rule trans)
      from i2[of w1] p have p2: "P2" by simp
      show ?thesis
      proof (cases "circulation_step L app e w2")
        case (Inl x)
        have "tick L e w = (w2, Aborted x)" using t l p Inl by simp
        moreover have "\<not> reaches_water L e" using i3[of w2] Inl rw by simp
        moreover note circulation_step_error[OF Inl] r2 False
        ultimately show ?thesis by blast
      next
        case c: (Inr w3)
        have r3: "R w w3" using r2 s3[OF c] by (rule trans)
        from i3[of w2] c have p3: "P3" by simp
        show ?thesis
        proof (cases "exhaust_step L app e w3")
          case (Inl x)
          have "tick L e w = (w3, Aborted x)" using t l p c Inl by simp
          moreover have "\<not> reaches_water L e" using i4[of w3] Inl rw by simp
          moreover note exhaust_step_error[OF Inl] r3 False
          ultimately show ?thesis by blast
        next
          case x: (Inr w4)
          have r4: "R w w4" using r3 s4[OF x] by (rule trans)
          from i4[of w3] x have p4: "P4" by simp
          from p1 p2 p3 p4 rw have reach: "reaches_water L e" by simp
          show ?thesis
          proof (cases "water_control L app e w4")
            case (Inl y)
            have "tick L e w = (w4, Aborted y)" using t l p c x Inl by simp
            moreover note water_control_error[OF Inl] r4 False reach
            ultimately show ?thesis by blast
          next
            case wc: (Inr w5)
            have "tick L e w = (log_step e (aggregate (dht_reads e)) w5, Completed)"
              using t l p c x wc by simp
            with wc r4 False reach show ?thesis by blast
          qed
        qed
      qed
    qed
  qed
qed

subsection \<open>The steps before the water step\<close>

lemma lights_loop_other_pin:
  "q \<notin> snd ` set ips \<Longrightarrow> lights_loop app fault sched ips gpio q = gpio q"
  by (induction ips arbitrary: gpio) (auto simp: Let_def toggle_relay_fst_other)

lemma exhaust_loop_other_pin:
  "q \<notin> snd ` set ips \<Longrightarrow> exhaust_loop app fault auto_on ips gpio q = gpio q"
  by (induction ips arbitrary: gpio) (auto simp: Let_def toggle_relay_fst_other)

lemma cycle_loop_other_pin:
  "q \<notin> snd ` set ips \<Longrightarrow>
     snd (snd (cycle_loop app key fault now on_d off_d ips st)) q = snd (snd st) q"
proof (induction ips arbitrary: st)
  case Nil
  show ?case by simp
next
  case (Cons ip ips)
  obtain i p where ip: "ip = (i, p)" by (cases ip)
  from Cons.prems ip have n: "p \<noteq> q" "q \<notin> snd ` set ips" by auto
  show ?case
    using Cons.IH[OF n(2)] ip cycle_channel_other_pin[OF n(1)] by simp
qed

lemma snd_enumerate: "snd ` set (enumerate n xs) = set xs"
  by (induction xs arbitrary: n) auto

lemma solenoid_pin_apart:
  "SOLENOID_RELAY_PIN \<notin> set LIGHTS_PINS" "SOLENOID_RELAY_PIN \<notin> set PUMPS_PINS"
  "SOLENOID_RELAY_PIN \<notin> set CIRCULATION_FANS_PINS" "SOLENOID_RELAY_PIN \<notin> set EXHAUST_FANS_PINS"
  by (simp_all add: pin_defs)

lemma lights_step_untouched: "lights_step L app e v = Inr v' \<Longrightarrow> water_untouched v v'"
  by (auto simp: lights_step_def lights_control_def water_untouched_def same_water_def
        lights_loop_other_pin snd_enumerate solenoid_pin_apart split: sum.splits)

lemma exhaust_step_untouched: "exhaust_step L app e v = Inr v' \<Longrightarrow> water_untouched v v'"
proof -
  assume a: "exhaust_step L app e v = Inr v'"
  from exhaust_step_hw[OF a] have h: "hw v' = hw v" .
  have "relays v' SOLENOID_RELAY_PIN = relays v SOLENOID_RELAY_PIN"
    using a
    by (auto simp: exhaust_step_def exhaust_fans_control_def exhaust_loop_other_pin snd_enumerate
          solenoid_pin_apart split: sum.splits option.splits prod.splits)
  with h show ?thesis by (simp add: water_untouched_def same_water_def)
qed

lemma pumps_step_untouched: "pumps_step L app e v = Inr v' \<Longrightarrow> water_untouched v v'"
proof -
  assume a: "pumps_step L app e v = Inr v'"
  from pumps_step_hw[OF a] have h: "same_water (hw v) (hw v')" by simp
  have "relays v' SOLENOID_RELAY_PIN = relays v SOLENOID_RELAY_PIN"
    using a cycle_loop_other_pin[of SOLENOID_RELAY_PIN "enumerate 0 PUMPS_PINS"]
    by (auto simp: pumps_step_def pumps_control_def snd_enumerate
          solenoid_pin_apart split: sum.splits prod.splits dest!: arg_cong[where f="\<lambda>t. snd (snd t) SOLENOID_RELAY_PIN"])
  with h show ?thesis by (simp add: water_untouched_def)
qed


lemma circulation_step_untouched:
  "circulation_step L app e v = Inr v' \<Longrightarrow> water_untouched v v'"
proof -
  assume a: "circulation_step L app e v = Inr v'"
  from circulation_step_hw[OF a] have h: "same_water (hw v) (hw v')" by simp
  have "relays v' SOLENOID_RELAY_PIN = relays v SOLENOID_RELAY_PIN"
    using a cycle_loop_other_pin[of SOLENOID_RELAY_PIN "enumerate 0 CIRCULATION_FANS_PINS"]
    by (auto simp: circulation_step_def circulation_fans_control_def snd_enumerate
          solenoid_pin_apart split: sum.splits prod.splits
          dest!: arg_cong[where f="\<lambda>t. snd (snd t) SOLENOID_RELAY_PIN"])
  with h show ?thesis by (simp add: water_untouched_def)
qed

text \<open>What an aborted tick leaves of the water entries and of the solenoid relay.\<close>

lemma tick_water_split:
  "\<exists>v. water_untouched w v \<and>
     ((\<exists>x. tick L e w = (v, Aborted x)
         \<and> (db_load_fails e \<and> x = DatabaseError
            \<or> \<not> db_load_fails e \<and> \<not> reaches_water L e \<and> (x = ValueError \<or> x = OverflowError)
            \<or> \<not> db_load_fails e \<and> reaches_water L e
                \<and> py_float L (get_setting (load_settings L (settings_rows e)) ''maxFillTime''
                      (PyInt 600)) = Inl x))
      \<or> (\<exists>v5. \<not> db_load_fails e \<and> reaches_water L e
            \<and> water_control L (load_settings L (settings_rows e)) e v = Inr v5
            \<and> tick L e w = (log_step e (aggregate (dht_reads e)) v5, Completed)))"
proof (rule tick_split[where R=water_untouched, OF refl])
  show "\<And>v. water_untouched v v" by (simp add: water_untouched_def same_water_def)
  show "\<And>a b c. water_untouched a b \<Longrightarrow> water_untouched b c \<Longrightarrow> water_untouched a c"
    by (simp add: water_untouched_def same_water_def)
  show "\<And>v x. water_untouched v (v\<lparr>settings_tab := x\<rparr>)"
    by (simp add: water_untouched_def same_water_def)
qed (rule lights_step_untouched pumps_step_untouched circulation_step_untouched
       exhaust_step_untouched, assumption)+

lemma tick_aborted_untouched:
  "snd (tick L e w) \<noteq> Completed \<Longrightarrow> water_untouched w (fst (tick L e w))"
  using tick_water_split[of w L e] by auto

subsection \<open>The overflow interlock\<close>

lemma reaches_water_max_fill:
  "settings_rows e = [''maxFillTime'' \<mapsto> v] \<Longrightarrow> reaches_water plain_lib e"
  by (simp add: reaches_water_def load_settings_def get_setting_def float_ok_def time_ok_def
        py_float_def parse_time_def lib_defs)

lemma max_fill_abc:
  "py_float plain_lib
     (get_setting (load_settings plain_lib [''maxFillTime'' \<mapsto> ''abc'']) ''maxFillTime''
        (PyInt 600)) = Inl ValueError"
  by (simp add: load_settings_def get_setting_def convert_value_def py_float_def lib_defs)

text \<open>
  Claim C1, as stated, fails. The overflow switch is triggered and the solenoid is on, in
  the middle of a fill; the settings table holds \<^verbatim>\<open>abc\<close> for \<^verbatim>\<open>maxFillTime\<close>. The tick
  reads the switch at line 338, raises \<^verbatim>\<open>ValueError\<close> at line 340 and never gets to the
  check of line 343: the solenoid is still on after the tick, and no error is set.
\<close>

theorem overflow_missed_on_aborted_tick:
  "overflow_detected (overflow_env [''maxFillTime'' \<mapsto> ''abc''] 100)
   \<and> solenoid_on (hw (filling_world 50))
   \<and> relays (filling_world 50) SOLENOID_RELAY_PIN
   \<and> snd (tick plain_lib (overflow_env [''maxFillTime'' \<mapsto> ''abc''] 100) (filling_world 50))
       = Aborted ValueError
   \<and> solenoid_on (hw (fst (tick plain_lib (overflow_env [''maxFillTime'' \<mapsto> ''abc''] 100)
                             (filling_world 50))))
   \<and> relays (fst (tick plain_lib (overflow_env [''maxFillTime'' \<mapsto> ''abc''] 100)
                     (filling_world 50))) SOLENOID_RELAY_PIN
   \<and> water_error (hw (fst (tick plain_lib (overflow_env [''maxFillTime'' \<mapsto> ''abc''] 100)
                              (filling_world 50)))) = None"
proof -
  let ?e = "overflow_env [''maxFillTime'' \<mapsto> ''abc''] 100"
  let ?w = "filling_world 50"
  have rows: "settings_rows ?e = [''maxFillTime'' \<mapsto> ''abc'']" "\<not> db_load_fails ?e"
    by (simp_all add: overflow_env_def example_env_def)
  have ovf: "overflow_detected ?e"
    by (simp add: overflow_detected_def overflow_env_def)
  have w: "solenoid_on (hw ?w)" "relays ?w SOLENOID_RELAY_PIN" "water_error (hw ?w) = None"
    by (simp_all add: filling_world_def filling_state_def initial_hardware_state_def)
  have reach: "reaches_water plain_lib ?e" using rows(1) by (rule reaches_water_max_fill)
  have nok: "\<not> settings_parse plain_lib ?e"
    using max_fill_abc by (simp add: settings_parse_reaches rows float_ok_def)
  from tick_water_split[of ?w plain_lib ?e] obtain v where
    u: "water_untouched ?w v" and
    c: "(\<exists>x. tick plain_lib ?e ?w = (v, Aborted x)
         \<and> (db_load_fails ?e \<and> x = DatabaseError
            \<or> \<not> db_load_fails ?e \<and> \<not> reaches_water plain_lib ?e
                \<and> (x = ValueError \<or> x = OverflowError)
            \<or> \<not> db_load_fails ?e \<and> reaches_water plain_lib ?e
                \<and> py_float plain_lib (get_setting (load_settings plain_lib (settings_rows ?e))
                      ''maxFillTime'' (PyInt 600)) = Inl x))
      \<or> (\<exists>v5. \<not> db_load_fails ?e \<and> reaches_water plain_lib ?e
            \<and> water_control plain_lib (load_settings plain_lib (settings_rows ?e)) ?e v = Inr v5
            \<and> tick plain_lib ?e ?w = (log_step ?e (aggregate (dht_reads ?e)) v5, Completed))"
    by blast
  have nc: "snd (tick plain_lib ?e ?w) \<noteq> Completed"
    using nok by (simp add: tick_completed_iff)
  from c nc reach rows max_fill_abc have t: "tick plain_lib ?e ?w = (v, Aborted ValueError)"
    by auto
  from u w t ovf show ?thesis by (simp add: water_untouched_def same_water_def)
qed

text \<open>
  Claim C1, amended. On a tick whose overflow switch reads triggered and which gets as far
  as the check, the solenoid is turned off and the water error is set to overflow, whatever
  the water state before, the mode and the times; the relay itself is off unless its GPIO
  access raises. The water step gets to the check whenever \<^verbatim>\<open>maxFillTime\<close> converts, and
  a tick that completes has got there. A tick that is aborted leaves the three water
  entries and the solenoid relay as they were.
\<close>

theorem overflow_interlock:
  assumes "overflow_detected e"
  shows "(py_float L (get_setting app ''maxFillTime'' (PyInt 600)) = Inr m \<longrightarrow>
           (\<exists>w'. water_control L app e w = Inr w'
              \<and> \<not> solenoid_on (hw w') \<and> water_error (hw w') = Some ''overflow''
              \<and> (\<not> relay_fault e SOLENOID_RELAY_PIN \<longrightarrow> \<not> relays w' SOLENOID_RELAY_PIN)))
       \<and> (snd (tick L e w) = Completed \<longrightarrow>
            \<not> solenoid_on (hw (fst (tick L e w)))
          \<and> water_error (hw (fst (tick L e w))) = Some ''overflow''
          \<and> (\<not> relay_fault e SOLENOID_RELAY_PIN \<longrightarrow>
               \<not> relays (fst (tick L e w)) SOLENOID_RELAY_PIN))
       \<and> (snd (tick L e w) \<noteq> Completed \<longrightarrow>
            solenoid_on (hw (fst (tick L e w))) = solenoid_on (hw w)
          \<and> solenoid_start_time (hw (fst (tick L e w))) = solenoid_start_time (hw w)
          \<and> water_error (hw (fst (tick L e w))) = water_error (hw w)
          \<and> relays (fst (tick L e w)) SOLENOID_RELAY_PIN = relays w SOLENOID_RELAY_PIN)"
proof (intro conjI impI)
  assume m: "py_float L (get_setting app ''maxFillTime'' (PyInt 600)) = Inr m"
  show "\<exists>w'. water_control L app e w = Inr w'
              \<and> \<not> solenoid_on (hw w') \<and> water_error (hw w') = Some ''overflow''
              \<and> (\<not> relay_fault e SOLENOID_RELAY_PIN \<longrightarrow> \<not> relays w' SOLENOID_RELAY_PIN)"
    using m assms
      water_engine_overflow[of "relay_fault e" "list_all id (water_levels_ok e)"
        "get_setting app ''waterSystemMode'' (PyStr ''auto'')" m "monotonic_time e" "hw w" "relays w"]
    by (simp add: water_control_def Let_def)
next
  assume c: "snd (tick L e w) = Completed"
  obtain w' out where t: "tick L e w = (w', out)" by (cases "tick L e w")
  with c have out: "out = Completed" by simp
  from tick_water[OF t] out obtain h g m where
    sw: "same_water (fst (engine_of L e m (h, g))) (hw w')"
    and r: "relays w' = snd (engine_of L e m (h, g))"
    by auto
  have eng: "\<not> solenoid_on (fst (engine_of L e m (h, g)))
     \<and> water_error (fst (engine_of L e m (h, g))) = Some ''overflow''
     \<and> (\<not> relay_fault e SOLENOID_RELAY_PIN \<longrightarrow> \<not> snd (engine_of L e m (h, g)) SOLENOID_RELAY_PIN)"
    unfolding engine_of_def using assms
    by (simp add: water_engine_overflow)
  from eng sw r t
  have all: "\<not> solenoid_on (hw (fst (tick L e w)))
          \<and> water_error (hw (fst (tick L e w))) = Some ''overflow''
          \<and> (\<not> relay_fault e SOLENOID_RELAY_PIN \<longrightarrow>
               \<not> relays (fst (tick L e w)) SOLENOID_RELAY_PIN)"
    by (simp add: same_water_def)
  from all show "\<not> solenoid_on (hw (fst (tick L e w)))" by simp
  from all show "water_error (hw (fst (tick L e w))) = Some ''overflow''" by simp
  from all show "\<not> relay_fault e SOLENOID_RELAY_PIN \<Longrightarrow> \<not> relays (fst (tick L e w)) SOLENOID_RELAY_PIN"
    by simp
next
  assume a: "snd (tick L e w) \<noteq> Completed"
  from tick_aborted_untouched[OF a]
  have u: "solenoid_on (hw (fst (tick L e w))) = solenoid_on (hw w)
          \<and> solenoid_start_time (hw (fst (tick L e w))) = solenoid_start_time (hw w)
          \<and> water_error (hw (fst (tick L e w))) = water_error (hw w)
          \<and> relays (fst (tick L e w)) SOLENOID_RELAY_PIN = relays w SOLENOID_RELAY_PIN"
    by (simp add: water_untouched_def same_water_def)
  from u show "solenoid_on (hw (fst (tick L e w))) = solenoid_on (hw w)" by simp
  from u show "solenoid_start_time (hw (fst (tick L e w))) = solenoid_start_time (hw w)" by simp
  from u show "water_error (hw (fst (tick L e w))) = water_error (hw w)" by simp
  from u show "relays (fst (tick L e w)) SOLENOID_RELAY_PIN = relays w SOLENOID_RELAY_PIN" by simp
qed

theorem overflow_interlock_witness:
  "overflow_detected (overflow_env Map.empty 100)
   \<and> solenoid_on (hw (filling_world 50))
   \<and> relays (filling_world 50) SOLENOID_RELAY_PIN
   \<and> snd (tick plain_lib (overflow_env Map.empty 100) (filling_world 50)) = Completed
   \<and> \<not> solenoid_on (hw (fst (tick plain_lib (overflow_env Map.empty 100) (filling_world 50))))
   \<and> water_error (hw (fst (tick plain_lib (overflow_env Map.empty 100) (filling_world 50))))
       = Some ''overflow''
   \<and> \<not> relays (fst (tick plain_lib (overflow_env Map.empty 100) (filling_world 50)))
         SOLENOID_RELAY_PIN
   \<and> (\<exists>w'. water_control plain_lib Map.empty (overflow_env Map.empty 100) (filling_world 50)
             = Inr w'
          \<and> \<not> solenoid_on (hw w') \<and> water_error (hw w') = Some ''overflow''
          \<and> \<not> relays w' SOLENOID_RELAY_PIN)
   \<and> snd (tick plain_lib (overflow_env [''maxFillTime'' \<mapsto> ''abc''] 100) (filling_world 50))
       \<noteq> Completed
   \<and> solenoid_on (hw (fst (tick plain_lib (overflow_env [''maxFillTime'' \<mapsto> ''abc''] 100)
                             (filling_world 50)))) = solenoid_on (hw (filling_world 50))
   \<and> relays (fst (tick plain_lib (overflow_env [''maxFillTime'' \<mapsto> ''abc''] 100)
                     (filling_world 50))) SOLENOID_RELAY_PIN
       = relays (filling_world 50) SOLENOID_RELAY_PIN"
proof -
  let ?e = "overflow_env Map.empty 100"
  let ?g = "overflow_env [''maxFillTime'' \<mapsto> ''abc''] 100"
  let ?w = "filling_world 50"
  have ovg: "overflow_detected ?g"
    by (simp add: overflow_detected_def overflow_env_def)
  have rg: "settings_rows ?g = [''maxFillTime'' \<mapsto> ''abc'']"
    by (simp add: overflow_env_def example_env_def)
  have cg: "snd (tick plain_lib ?g ?w) \<noteq> Completed"
    using max_fill_abc by (simp add: tick_completed_iff settings_parse_reaches rg float_ok_def)
  from overflow_interlock[OF ovg, of plain_lib Map.empty 600 ?w, THEN conjunct2, THEN conjunct2] cg
  have ab: "solenoid_on (hw (fst (tick plain_lib ?g ?w))) = solenoid_on (hw ?w)"
    "relays (fst (tick plain_lib ?g ?w)) SOLENOID_RELAY_PIN = relays ?w SOLENOID_RELAY_PIN"
    by simp_all
  have ovf: "overflow_detected ?e"
    by (simp add: overflow_detected_def overflow_env_def)
  have rows: "settings_rows ?e = Map.empty" "\<not> db_load_fails ?e"
    by (simp_all add: overflow_env_def example_env_def)
  have comp: "snd (tick plain_lib ?e ?w) = Completed"
    using settings_parse_defaults[OF rows(1)] rows(2) by (simp add: tick_completed_iff)
  have nf: "\<not> relay_fault ?e SOLENOID_RELAY_PIN"
    by (simp add: overflow_env_def example_env_def)
  have w: "solenoid_on (hw ?w)" "relays ?w SOLENOID_RELAY_PIN"
    by (simp_all add: filling_world_def filling_state_def initial_hardware_state_def)
  have m: "py_float plain_lib (get_setting Map.empty ''maxFillTime'' (PyInt 600)) = Inr 600"
    by (simp add: get_setting_def py_float_def)
  from overflow_interlock[OF ovf, of plain_lib Map.empty 600 ?w] comp nf ovf w m
  have "overflow_detected ?e
   \<and> solenoid_on (hw ?w)
   \<and> relays ?w SOLENOID_RELAY_PIN
   \<and> snd (tick plain_lib ?e ?w) = Completed
   \<and> \<not> solenoid_on (hw (fst (tick plain_lib ?e ?w)))
   \<and> water_error (hw (fst (tick plain_lib ?e ?w))) = Some ''overflow''
   \<and> \<not> relays (fst (tick plain_lib ?e ?w)) SOLENOID_RELAY_PIN
   \<and> (\<exists>w'. water_control plain_lib Map.empty ?e ?w = Inr w'
          \<and> \<not> solenoid_on (hw w') \<and> water_error (hw w') = Some ''overflow''
          \<and> \<not> relays w' SOLENOID_RELAY_PIN)"
    by simp
  with cg ab show ?thesis by blast
qed

subsection \<open>The logging step on a tick\<close>

lemma lights_step_log_view: "lights_step L app e v = Inr v' \<Longrightarrow> log_view v' = log_view v"
  by (auto simp: lights_step_def log_view_def split: sum.splits)

lemma exhaust_step_log_view: "exhaust_step L app e v = Inr v' \<Longrightarrow> log_view v' = log_view v"
  by (auto simp: exhaust_step_def log_view_def split: sum.splits)

lemma pumps_step_log_view: "pumps_step L app e v = Inr v' \<Longrightarrow> log_view v' = log_view v"
  by (auto simp: pumps_step_def log_view_def split: sum.splits prod.splits)

lemma circulation_step_log_view:
  "circulation_step L app e v = Inr v' \<Longrightarrow> log_view v' = log_view v"
  by (auto simp: circulation_step_def log_view_def split: sum.splits prod.splits)

lemma water_control_log_view: "water_control L app e v = Inr v' \<Longrightarrow> log_view v' = log_view v"
  by (auto simp: water_control_def log_view_def Let_def water_engine_frame split: sum.splits)

text \<open>
  An aborted tick leaves the log as it was; a tick that completes runs step 6 once, on the
  log as it was before the tick.
\<close>

lemma tick_log:
  "(snd (tick L e w) \<noteq> Completed \<longrightarrow> log_view (fst (tick L e w)) = log_view w)
   \<and> (snd (tick L e w) = Completed \<longrightarrow>
        (\<exists>v. log_view v = log_view w
           \<and> fst (tick L e w) = log_step e (aggregate (dht_reads e)) v))"
proof -
  have "\<exists>v. log_view v = log_view w \<and>
     ((\<exists>x. tick L e w = (v, Aborted x)
         \<and> (db_load_fails e \<and> x = DatabaseError
            \<or> \<not> db_load_fails e \<and> \<not> reaches_water L e \<and> (x = ValueError \<or> x = OverflowError)
            \<or> \<not> db_load_fails e \<and> reaches_water L e
                \<and> py_float L (get_setting (load_settings L (settings_rows e)) ''maxFillTime''
                      (PyInt 600)) = Inl x))
      \<or> (\<exists>v5. \<not> db_load_fails e \<and> reaches_water L e
            \<and> water_control L (load_settings L (settings_rows e)) e v = Inr v5
            \<and> tick L e w = (log_step e (aggregate (dht_reads e)) v5, Completed)))"
  proof (rule tick_split[where R="\<lambda>a b. log_view b = log_view a", OF refl])
    show "\<And>v x. log_view (v\<lparr>settings_tab := x\<rparr>) = log_view v" by (simp add: log_view_def)
  qed (simp_all add: lights_step_log_view pumps_step_log_view circulation_step_log_view
         exhaust_step_log_view)
  then obtain v where v: "log_view v = log_view w"
    and c: "(\<exists>x. tick L e w = (v, Aborted x))
      \<or> (\<exists>v5. water_control L (load_settings L (settings_rows e)) e v = Inr v5
            \<and> tick L e w = (log_step e (aggregate (dht_reads e)) v5, Completed))"
    by blast
  from c show ?thesis
  proof
    assume "\<exists>x. tick L e w = (v, Aborted x)"
    with v show ?thesis by auto
  next
    assume "\<exists>v5. water_control L (load_settings L (settings_rows e)) e v = Inr v5
            \<and> tick L e w = (log_step e (aggregate (dht_reads e)) v5, Completed)"
    then obtain v5 where w5: "water_control L (load_settings L (settings_rows e)) e v = Inr v5"
      and t: "tick L e w = (log_step e (aggregate (dht_reads e)) v5, Completed)" by blast
    from water_control_log_view[OF w5] v have "log_view v5 = log_view w" by simp
    with t show ?thesis by auto
  qed
qed

lemma float_switches: "[water_levels_ok e ! 0, water_levels_ok e ! 1, water_levels_ok e ! 2]
   = water_levels_ok e"
  by (simp add: water_levels_ok_def pin_defs)

text \<open>Step 6, case by case.\<close>

lemma log_step_not_due:
  "\<not> monotonic_time e - last_sensor_log_time (hw v) \<ge> 60 \<Longrightarrow>
     log_view (log_step e rd v)
       = (last_sensor_log_time (hw v), sensor_readings v, latest_state v, log_events v @ [NotDue])"
  by (simp add: log_step_def log_sensor_data_def log_view_def)

lemma log_step_no_data:
  "monotonic_time e - last_sensor_log_time (hw v) \<ge> 60 \<Longrightarrow>
     log_view (log_step e None v)
       = (last_sensor_log_time (hw v), sensor_readings v, latest_state v,
          log_events v @ [SkippedNoData])"
  by (simp add: log_step_def log_sensor_data_def log_view_def)

lemma log_step_failed:
  "monotonic_time e - last_sensor_log_time (hw v) \<ge> 60 \<Longrightarrow> db_log_fails e \<Longrightarrow>
     log_view (log_step e (Some th) v)
       = (last_sensor_log_time (hw v), sensor_readings v, latest_state v,
          log_events v @ [LogFailed])"
  by (cases th) (simp add: log_step_def log_sensor_data_def log_view_def)

lemma log_step_logged:
  "monotonic_time e - last_sensor_log_time (hw v) \<ge> 60 \<Longrightarrow> \<not> db_log_fails e \<Longrightarrow>
     log_view (log_step e (Some (t, h)) v)
       = (monotonic_time e,
          sensor_readings v @ [\<lparr>temperature = t, humidity = h,
             waterLevelOK = list_all id (water_levels_ok e),
             floater1 = water_levels_ok e ! 0, floater2 = water_levels_ok e ! 1,
             floater3 = water_levels_ok e ! 2\<rparr>],
          update_latest \<lparr>temperature = t, humidity = h,
             waterLevelOK = list_all id (water_levels_ok e),
             floater1 = water_levels_ok e ! 0, floater2 = water_levels_ok e ! 1,
             floater3 = water_levels_ok e ! 2\<rparr> (latest_state v),
          log_events v @ [Logged])"
  by (simp add: log_step_def log_sensor_data_def log_view_def Let_def)


lemma log_step_throttle:
  "\<exists>res. log_events (log_step e rd v) = log_events v @ [res]
     \<and> ((res = Logged \<or> res = LogFailed)
          = (monotonic_time e - last_sensor_log_time (hw v) \<ge> 60 \<and> rd \<noteq> None))
     \<and> ((res = Logged)
          = (monotonic_time e - last_sensor_log_time (hw v) \<ge> 60 \<and> rd \<noteq> None
             \<and> \<not> db_log_fails e))
     \<and> (res = Logged \<longrightarrow>
           last_sensor_log_time (hw (log_step e rd v)) = monotonic_time e
         \<and> (\<exists>row. sensor_readings (log_step e rd v) = sensor_readings v @ [row]
               \<and> latest_state (log_step e rd v)
                   = (if latest_state v = None then None else Some row)
               \<and> Some (temperature row, humidity row) = rd
               \<and> waterLevelOK row = list_all id (water_levels_ok e)
               \<and> [floater1 row, floater2 row, floater3 row] = water_levels_ok e))
     \<and> (res \<noteq> Logged \<longrightarrow>
           last_sensor_log_time (hw (log_step e rd v)) = last_sensor_log_time (hw v)
         \<and> sensor_readings (log_step e rd v) = sensor_readings v
         \<and> latest_state (log_step e rd v) = latest_state v)"
proof (cases "monotonic_time e - last_sensor_log_time (hw v) \<ge> 60")
  case False
  from log_step_not_due[OF False, of rd]
  have "last_sensor_log_time (hw (log_step e rd v)) = last_sensor_log_time (hw v)"
    "sensor_readings (log_step e rd v) = sensor_readings v"
    "latest_state (log_step e rd v) = latest_state v"
    "log_events (log_step e rd v) = log_events v @ [NotDue]"
    by (simp_all add: log_view_def)
  with False show ?thesis by (intro exI[of _ NotDue]) simp
next
  case due: True
  show ?thesis
  proof (cases rd)
    case None
    from log_step_no_data[OF due]
    have "last_sensor_log_time (hw (log_step e None v)) = last_sensor_log_time (hw v)"
      "sensor_readings (log_step e None v) = sensor_readings v"
      "latest_state (log_step e None v) = latest_state v"
      "log_events (log_step e None v) = log_events v @ [SkippedNoData]"
      by (simp_all add: log_view_def)
    with None show ?thesis by (intro exI[of _ SkippedNoData]) simp
  next
    case (Some th)
    obtain t h where th: "th = (t, h)" by (cases th)
    show ?thesis
    proof (cases "db_log_fails e")
      case True
      from log_step_failed[OF due True, of th]
      have "last_sensor_log_time (hw (log_step e (Some th) v)) = last_sensor_log_time (hw v)"
        "sensor_readings (log_step e (Some th) v) = sensor_readings v"
        "latest_state (log_step e (Some th) v) = latest_state v"
        "log_events (log_step e (Some th) v) = log_events v @ [LogFailed]"
        by (simp_all add: log_view_def)
      with Some True due show ?thesis by (intro exI[of _ LogFailed]) simp
    next
      case False
      define row where "row = \<lparr>temperature = t, humidity = h,
             waterLevelOK = list_all id (water_levels_ok e),
             floater1 = water_levels_ok e ! 0, floater2 = water_levels_ok e ! 1,
             floater3 = water_levels_ok e ! 2\<rparr>"
      from log_step_logged[OF due False, of t h]
      have l: "last_sensor_log_time (hw (log_step e (Some (t, h)) v)) = monotonic_time e"
        "sensor_readings (log_step e (Some (t, h)) v) = sensor_readings v @ [row]"
        "latest_state (log_step e (Some (t, h)) v) = update_latest row (latest_state v)"
        "log_events (log_step e (Some (t, h)) v) = log_events v @ [Logged]"
        by (simp_all add: log_view_def row_def)
      have u: "update_latest row (latest_state v)
                 = (if latest_state v = None then None else Some row)"
        by (simp add: update_latest_def split: option.splits)
      have r: "Some (temperature row, humidity row) = Some (t, h)"
        "waterLevelOK row = list_all id (water_levels_ok e)"
        "[floater1 row, floater2 row, floater3 row] = water_levels_ok e"
        using float_switches[of e] by (simp_all add: row_def)
      have ex: "\<exists>r. sensor_readings (log_step e rd v) = sensor_readings v @ [r]
               \<and> latest_state (log_step e rd v)
                   = (if latest_state v = None then None else Some r)
               \<and> Some (temperature r, humidity r) = rd
               \<and> waterLevelOK r = list_all id (water_levels_ok e)
               \<and> [floater1 r, floater2 r, floater3 r] = water_levels_ok e"
        using l u r Some th by (intro exI[of _ row]) simp
      from ex l Some th False due show ?thesis by (intro exI[of _ Logged]) simp
    qed
  qed
qed

text \<open>
  Claim C9, as stated, fails: a due write is not attempted on a tick that is aborted before
  step 6. One minute has passed since the last log and two sensors have answered, but
  \<^verbatim>\<open>maxFillTime\<close> is \<^verbatim>\<open>abc\<close>: the tick raises at line 340, nothing is written and nothing
  is printed by step 6.
\<close>

theorem due_write_skipped_on_aborted_tick:
  "monotonic_time (example_env [''maxFillTime'' \<mapsto> ''abc''] 100)
     - last_sensor_log_time (hw (initial_world 0 0 0 Map.empty)) \<ge> 60
   \<and> aggregate (dht_reads (example_env [''maxFillTime'' \<mapsto> ''abc''] 100)) = Some (25, 61)
   \<and> \<not> db_log_fails (example_env [''maxFillTime'' \<mapsto> ''abc''] 100)
   \<and> snd (tick plain_lib (example_env [''maxFillTime'' \<mapsto> ''abc''] 100)
            (initial_world 0 0 0 Map.empty)) \<noteq> Completed
   \<and> log_events (fst (tick plain_lib (example_env [''maxFillTime'' \<mapsto> ''abc''] 100)
                         (initial_world 0 0 0 Map.empty))) = []
   \<and> sensor_readings (fst (tick plain_lib (example_env [''maxFillTime'' \<mapsto> ''abc''] 100)
                              (initial_world 0 0 0 Map.empty))) = []
   \<and> last_sensor_log_time (hw (fst (tick plain_lib
        (example_env [''maxFillTime'' \<mapsto> ''abc''] 100) (initial_world 0 0 0 Map.empty))))
       = - 301"
proof -
  let ?e = "example_env [''maxFillTime'' \<mapsto> ''abc''] 100"
  let ?w = "initial_world 0 0 0 Map.empty"
  have rows: "settings_rows ?e = [''maxFillTime'' \<mapsto> ''abc'']"
    by (simp add: example_env_def)
  have e: "monotonic_time ?e = 100" "\<not> db_log_fails ?e"
    "aggregate (dht_reads ?e) = Some (25, 61)"
    by (simp_all add: example_env_def aggregate_def)
  have w: "log_view ?w = (- 301, [], latest_state ?w, [])"
    by (simp add: log_view_def initial_world_def initial_hardware_state_def)
  have nok: "\<not> settings_parse plain_lib ?e"
    using max_fill_abc by (simp add: settings_parse_reaches rows float_ok_def)
  then have nc: "snd (tick plain_lib ?e ?w) \<noteq> Completed"
    by (simp add: tick_completed_iff)
  with tick_log[of plain_lib ?e ?w]
  have "log_view (fst (tick plain_lib ?e ?w)) = log_view ?w" by simp
  with w have v: "last_sensor_log_time (hw (fst (tick plain_lib ?e ?w))) = - 301"
    "sensor_readings (fst (tick plain_lib ?e ?w)) = []"
    "log_events (fst (tick plain_lib ?e ?w)) = []"
    by (simp_all add: log_view_def)
  have l: "last_sensor_log_time (hw ?w) = - 301"
    by (simp add: initial_world_def initial_hardware_state_def)
  from e l nc v show ?thesis by simp
qed

text \<open>
  Claim C9, amended. On a tick that completes, step 6 runs once, on the log as it was before
  the tick: the telemetry write (one new row of the history and the update of the latest
  row) is attempted exactly when at least 60 seconds have passed since the last logged
  write and the aggregated reading is there, which it is exactly when some sensor gave both
  values. A write that succeeds appends the row, overwrites the latest row when the table
  has one, and advances the time of the last log to the time of the tick; after any other
  outcome the time and the tables are as they were, so the next tick tries again. A write
  that fails never turns a tick that completes into one that is aborted. A tick that is
  aborted attempts no write: the time, the tables and the console of step 6 are as they
  were.
\<close>

theorem telemetry_throttle:
  "(snd (tick L e w) = Completed \<longrightarrow>
      (\<exists>res. log_events (fst (tick L e w)) = log_events w @ [res]
         \<and> ((res = Logged \<or> res = LogFailed)
              = (monotonic_time e - last_sensor_log_time (hw w) \<ge> 60
                 \<and> aggregate (dht_reads e) \<noteq> None))
         \<and> ((res = Logged)
              = (monotonic_time e - last_sensor_log_time (hw w) \<ge> 60
                 \<and> aggregate (dht_reads e) \<noteq> None \<and> \<not> db_log_fails e))
         \<and> (res = Logged \<longrightarrow>
               last_sensor_log_time (hw (fst (tick L e w))) = monotonic_time e
             \<and> (\<exists>row. sensor_readings (fst (tick L e w)) = sensor_readings w @ [row]
                   \<and> latest_state (fst (tick L e w))
                       = (if latest_state w = None then None else Some row)
                   \<and> Some (temperature row, humidity row) = aggregate (dht_reads e)
                   \<and> waterLevelOK row = list_all id (water_levels_ok e)
                   \<and> [floater1 row, floater2 row, floater3 row] = water_levels_ok e))
         \<and> (res \<noteq> Logged \<longrightarrow>
               last_sensor_log_time (hw (fst (tick L e w))) = last_sensor_log_time (hw w)
             \<and> sensor_readings (fst (tick L e w)) = sensor_readings w
             \<and> latest_state (fst (tick L e w)) = latest_state w)))
   \<and> (snd (tick L e w) \<noteq> Completed \<longrightarrow>
         log_events (fst (tick L e w)) = log_events w
       \<and> last_sensor_log_time (hw (fst (tick L e w))) = last_sensor_log_time (hw w)
       \<and> sensor_readings (fst (tick L e w)) = sensor_readings w
       \<and> latest_state (fst (tick L e w)) = latest_state w)
   \<and> ((aggregate (dht_reads e) = None) = (valid_readings (dht_reads e) = []))
   \<and> ((snd (tick L (e\<lparr>db_log_fails := True\<rparr>) w) = Completed) = (snd (tick L e w) = Completed))"
proof (intro conjI impI)
  assume "snd (tick L e w) = Completed"
  with tick_log[of L e w] obtain v where v: "log_view v = log_view w"
    and t: "fst (tick L e w) = log_step e (aggregate (dht_reads e)) v" by blast
  from v have eq: "last_sensor_log_time (hw v) = last_sensor_log_time (hw w)"
    "sensor_readings v = sensor_readings w" "latest_state v = latest_state w"
    "log_events v = log_events w"
    by (simp_all add: log_view_def)
  from log_step_throttle[of e "aggregate (dht_reads e)" v]
  show "\<exists>res. log_events (fst (tick L e w)) = log_events w @ [res]
         \<and> ((res = Logged \<or> res = LogFailed)
              = (monotonic_time e - last_sensor_log_time (hw w) \<ge> 60
                 \<and> aggregate (dht_reads e) \<noteq> None))
         \<and> ((res = Logged)
              = (monotonic_time e - last_sensor_log_time (hw w) \<ge> 60
                 \<and> aggregate (dht_reads e) \<noteq> None \<and> \<not> db_log_fails e))
         \<and> (res = Logged \<longrightarrow>
               last_sensor_log_time (hw (fst (tick L e w))) = monotonic_time e
             \<and> (\<exists>row. sensor_readings (fst (tick L e w)) = sensor_readings w @ [row]
                   \<and> latest_state (fst (tick L e w))
                       = (if latest_state w = None then None else Some row)
                   \<and> Some (temperature row, humidity row) = aggregate (dht_reads e)
                   \<and> waterLevelOK row = list_all id (water_levels_ok e)
                   \<and> [floater1 row, floater2 row, floater3 row] = water_levels_ok e))
         \<and> (res \<noteq> Logged \<longrightarrow>
               last_sensor_log_time (hw (fst (tick L e w))) = last_sensor_log_time (hw w)
             \<and> sensor_readings (fst (tick L e w)) = sensor_readings w
             \<and> latest_state (fst (tick L e w)) = latest_state w)"
    unfolding t eq .
next
  assume a: "snd (tick L e w) \<noteq> Completed"
  with tick_log[of L e w] have "log_view (fst (tick L e w)) = log_view w" by simp
  then have u: "log_events (fst (tick L e w)) = log_events w
       \<and> last_sensor_log_time (hw (fst (tick L e w))) = last_sensor_log_time (hw w)
       \<and> sensor_readings (fst (tick L e w)) = sensor_readings w
       \<and> latest_state (fst (tick L e w)) = latest_state w"
    by (simp add: log_view_def)
  from u show "log_events (fst (tick L e w)) = log_events w" by simp
  from u show "last_sensor_log_time (hw (fst (tick L e w))) = last_sensor_log_time (hw w)"
    by simp
  from u show "sensor_readings (fst (tick L e w)) = sensor_readings w" by simp
  from u show "latest_state (fst (tick L e w)) = latest_state w" by simp
next
  show "(aggregate (dht_reads e) = None) = (valid_readings (dht_reads e) = [])"
    by (rule aggregate_None)
next
  show "(snd (tick L (e\<lparr>db_log_fails := True\<rparr>) w) = Completed) = (snd (tick L e w) = Completed)"
    by (simp add: tick_completed_iff settings_parse_log_flag)
qed


theorem telemetry_throttle_witness:
  "snd (tick plain_lib (example_env Map.empty 100) (initial_world 0 0 0 Map.empty)) = Completed
   \<and> log_events (fst (tick plain_lib (example_env Map.empty 100)
                         (initial_world 0 0 0 Map.empty))) = [Logged]
   \<and> last_sensor_log_time (hw (fst (tick plain_lib (example_env Map.empty 100)
                                       (initial_world 0 0 0 Map.empty)))) = 100
   \<and> map temperature (sensor_readings (fst (tick plain_lib (example_env Map.empty 100)
                                              (initial_world 0 0 0 Map.empty)))) = [25]
   \<and> map_option humidity (latest_state (fst (tick plain_lib (example_env Map.empty 100)
                                                (initial_world 0 0 0 Map.empty)))) = Some 61
   \<and> snd (tick plain_lib ((example_env Map.empty 100)\<lparr>db_log_fails := True\<rparr>)
            (initial_world 0 0 0 Map.empty)) = Completed
   \<and> log_events (fst (tick plain_lib ((example_env Map.empty 100)\<lparr>db_log_fails := True\<rparr>)
                         (initial_world 0 0 0 Map.empty))) = [LogFailed]
   \<and> sensor_readings (fst (tick plain_lib ((example_env Map.empty 100)\<lparr>db_log_fails := True\<rparr>)
                              (initial_world 0 0 0 Map.empty))) = []
   \<and> last_sensor_log_time (hw (fst (tick plain_lib
        ((example_env Map.empty 100)\<lparr>db_log_fails := True\<rparr>) (initial_world 0 0 0 Map.empty))))
       = - 301
   \<and> snd (tick plain_lib (example_env [''maxFillTime'' \<mapsto> ''abc''] 100)
            (initial_world 0 0 0 Map.empty)) \<noteq> Completed
   \<and> log_events (fst (tick plain_lib (example_env [''maxFillTime'' \<mapsto> ''abc''] 100)
                         (initial_world 0 0 0 Map.empty))) = []"
proof -
  let ?e = "example_env Map.empty 100"
  let ?f = "(example_env Map.empty 100)\<lparr>db_log_fails := True\<rparr>"
  let ?g = "example_env [''maxFillTime'' \<mapsto> ''abc''] 100"
  let ?w = "initial_world 0 0 0 Map.empty"
  have w: "last_sensor_log_time (hw ?w) = - 301" "sensor_readings ?w = []" "log_events ?w = []"
    "latest_state ?w \<noteq> None"
    by (simp_all add: initial_world_def initial_hardware_state_def)
  have e: "monotonic_time ?e = 100" "\<not> db_log_fails ?e"
    "aggregate (dht_reads ?e) = Some (25, 61)" "settings_rows ?e = Map.empty"
    "\<not> db_load_fails ?e"
    by (simp_all add: example_env_def aggregate_def)
  have f: "monotonic_time ?f = 100" "db_log_fails ?f"
    "aggregate (dht_reads ?f) = Some (25, 61)" "settings_rows ?f = Map.empty"
    "\<not> db_load_fails ?f"
    by (simp_all add: example_env_def aggregate_def)
  have ce: "snd (tick plain_lib ?e ?w) = Completed"
    using settings_parse_defaults[OF e(4)] e(5) by (simp add: tick_completed_iff)
  have cf: "snd (tick plain_lib ?f ?w) = Completed"
    using settings_parse_defaults[OF f(4)] f(5) by (simp add: tick_completed_iff)
  have rows: "settings_rows ?g = [''maxFillTime'' \<mapsto> ''abc'']"
    by (simp add: example_env_def)
  have cg: "snd (tick plain_lib ?g ?w) \<noteq> Completed"
    using max_fill_abc by (simp add: tick_completed_iff settings_parse_reaches rows float_ok_def)
  from telemetry_throttle[of plain_lib ?e ?w] ce obtain res where
    r: "log_events (fst (tick plain_lib ?e ?w)) = log_events ?w @ [res]"
       "(res = Logged) = (monotonic_time ?e - last_sensor_log_time (hw ?w) \<ge> 60
                 \<and> aggregate (dht_reads ?e) \<noteq> None \<and> \<not> db_log_fails ?e)"
       "res = Logged \<longrightarrow>
               last_sensor_log_time (hw (fst (tick plain_lib ?e ?w))) = monotonic_time ?e
             \<and> (\<exists>row. sensor_readings (fst (tick plain_lib ?e ?w)) = sensor_readings ?w @ [row]
                   \<and> latest_state (fst (tick plain_lib ?e ?w))
                       = (if latest_state ?w = None then None else Some row)
                   \<and> Some (temperature row, humidity row) = aggregate (dht_reads ?e)
                   \<and> waterLevelOK row = list_all id (water_levels_ok ?e)
                   \<and> [floater1 row, floater2 row, floater3 row] = water_levels_ok ?e)"
    by blast
  from r(2) e w have lg: "res = Logged" by simp
  with r(3) obtain row where
    row: "last_sensor_log_time (hw (fst (tick plain_lib ?e ?w))) = monotonic_time ?e"
      "sensor_readings (fst (tick plain_lib ?e ?w)) = sensor_readings ?w @ [row]"
      "latest_state (fst (tick plain_lib ?e ?w))
         = (if latest_state ?w = None then None else Some row)"
      "Some (temperature row, humidity row) = aggregate (dht_reads ?e)"
    by blast
  from row e w r(1) lg have a:
    "log_events (fst (tick plain_lib ?e ?w)) = [Logged]"
    "last_sensor_log_time (hw (fst (tick plain_lib ?e ?w))) = 100"
    "map temperature (sensor_readings (fst (tick plain_lib ?e ?w))) = [25]"
    "map_option humidity (latest_state (fst (tick plain_lib ?e ?w))) = Some 61"
    by simp_all
  from telemetry_throttle[of plain_lib ?f ?w] cf obtain res' where
    r': "log_events (fst (tick plain_lib ?f ?w)) = log_events ?w @ [res']"
       "(res' = Logged \<or> res' = LogFailed)
              = (monotonic_time ?f - last_sensor_log_time (hw ?w) \<ge> 60
                 \<and> aggregate (dht_reads ?f) \<noteq> None)"
       "(res' = Logged) = (monotonic_time ?f - last_sensor_log_time (hw ?w) \<ge> 60
                 \<and> aggregate (dht_reads ?f) \<noteq> None \<and> \<not> db_log_fails ?f)"
       "res' \<noteq> Logged \<longrightarrow>
               last_sensor_log_time (hw (fst (tick plain_lib ?f ?w))) = last_sensor_log_time (hw ?w)
             \<and> sensor_readings (fst (tick plain_lib ?f ?w)) = sensor_readings ?w
             \<and> latest_state (fst (tick plain_lib ?f ?w)) = latest_state ?w"
    by blast
  from r'(2,3) f w have lf: "res' = LogFailed" "res' \<noteq> Logged" by simp_all
  with r'(1,4) w have b:
    "log_events (fst (tick plain_lib ?f ?w)) = [LogFailed]"
    "sensor_readings (fst (tick plain_lib ?f ?w)) = []"
    "last_sensor_log_time (hw (fst (tick plain_lib ?f ?w))) = - 301"
    by simp_all
  from telemetry_throttle[of plain_lib ?g ?w] cg w
  have c: "log_events (fst (tick plain_lib ?g ?w)) = []" by simp
  from a b c ce cf cg show ?thesis by blast
qed

subsection \<open>Settings that are absent or do not convert\<close>

lemma pump_on_abc:
  "py_float plain_lib
      (get_setting (load_settings plain_lib [''pumpOnDuration'' \<mapsto> ''abc''])
         ''pumpOnDuration'' (PyInt 900)) = Inl ValueError"
  by (simp add: load_settings_def get_setting_def convert_value_def py_float_def lib_defs)

lemma lights_on_noon:
  "parse_time plain_lib
      (get_setting (load_settings plain_lib [''lightsOnTime'' \<mapsto> ''noon''])
         ''lightsOnTime'' (PyStr ''06:00'')) = Inl ValueError"
  by (simp add: load_settings_def get_setting_def convert_value_def parse_time_def lib_defs)

text \<open>An aborted tick whose table could be read was aborted by a conversion.\<close>

lemma tick_aborted:
  assumes "snd (tick L e w) = Aborted x"
  shows "db_load_fails e \<and> x = DatabaseError
         \<or> \<not> db_load_fails e \<and> \<not> settings_parse L e \<and> (x = ValueError \<or> x = OverflowError)"
proof -
  from tick_water_split[of w L e] assms
  have "db_load_fails e \<and> x = DatabaseError
     \<or> \<not> db_load_fails e \<and> \<not> reaches_water L e \<and> (x = ValueError \<or> x = OverflowError)
     \<or> \<not> db_load_fails e \<and> reaches_water L e
          \<and> py_float L (get_setting (load_settings L (settings_rows e)) ''maxFillTime''
                (PyInt 600)) = Inl x"
    by auto
  then show ?thesis
    using py_float_error[of L "get_setting (load_settings L (settings_rows e)) ''maxFillTime''
                (PyInt 600)" x]
    by (auto simp: settings_parse_reaches float_ok_def)
qed

text \<open>A tick is aborted at the first conversion that raises, with the error raised.\<close>

lemma tick_aborts_at_lights:
  assumes "\<not> db_load_fails e"
    and "parse_time L (get_setting (load_settings L (settings_rows e)) ''lightsOnTime''
           (PyStr ''06:00'')) = Inl x"
  shows "snd (tick L e w) = Aborted x"
  using assms
  by (simp add: tick_def Let_def lights_step_def lights_control_def lights_schedule_def)

lemma tick_aborts_at_pumps:
  assumes d: "\<not> db_load_fails e"
    and t1: "time_ok L (load_settings L (settings_rows e)) ''lightsOnTime'' (PyStr ''06:00'')"
    and t2: "time_ok L (load_settings L (settings_rows e)) ''lightsOffTime'' (PyStr ''22:00'')"
    and p: "py_float L (get_setting (load_settings L (settings_rows e)) ''pumpOnDuration''
              (PyInt 900)) = Inl x"
  shows "snd (tick L e w) = Aborted x"
proof -
  define app where "app = load_settings L (settings_rows e)"
  define w0 where "w0 = w\<lparr>settings_tab := settings_rows e\<rparr>"
  from t1 t2 lights_step_isl[of L app e w0] obtain w1 where
    l: "lights_step L app e w0 = Inr w1"
    unfolding app_def by (cases "lights_step L (load_settings L (settings_rows e)) e w0") auto
  have ps: "pumps_step L app e w1 = Inl x"
    using p unfolding app_def by (simp add: pumps_step_def pumps_control_def)
  show ?thesis
    using d l ps unfolding app_def w0_def by (simp add: tick_def Let_def)
qed

text \<open>
  Claim C3, as stated, fails: a stored value that does not convert is not replaced by the
  default. With \<^verbatim>\<open>pumpOnDuration\<close> set to \<^verbatim>\<open>abc\<close>, or \<^verbatim>\<open>lightsOnTime\<close> set to
  \<^verbatim>\<open>noon\<close>, the read raises \<^verbatim>\<open>ValueError\<close> and the tick is aborted.
\<close>

theorem malformed_setting_aborts:
  "py_float plain_lib
      (get_setting (load_settings plain_lib [''pumpOnDuration'' \<mapsto> ''abc''])
         ''pumpOnDuration'' (PyInt 900)) = Inl ValueError
   \<and> snd (tick plain_lib (example_env [''pumpOnDuration'' \<mapsto> ''abc''] 10)
            (initial_world 0 0 0 Map.empty)) = Aborted ValueError
   \<and> parse_time plain_lib
      (get_setting (load_settings plain_lib [''lightsOnTime'' \<mapsto> ''noon''])
         ''lightsOnTime'' (PyStr ''06:00'')) = Inl ValueError
   \<and> snd (tick plain_lib (example_env [''lightsOnTime'' \<mapsto> ''noon''] 10)
            (initial_world 0 0 0 Map.empty)) = Aborted ValueError"
proof -
  let ?a = "example_env [''pumpOnDuration'' \<mapsto> ''abc''] 10"
  let ?b = "example_env [''lightsOnTime'' \<mapsto> ''noon''] 10"
  let ?w = "initial_world 0 0 0 Map.empty"
  have d: "\<not> db_load_fails ?a" "\<not> db_load_fails ?b" by (simp_all add: example_env_def)
  have ra: "settings_rows ?a = [''pumpOnDuration'' \<mapsto> ''abc'']"
    and rb: "settings_rows ?b = [''lightsOnTime'' \<mapsto> ''noon'']"
    by (simp_all add: example_env_def)
  have ta: "time_ok plain_lib (load_settings plain_lib (settings_rows ?a)) ''lightsOnTime''
              (PyStr ''06:00'')"
    "time_ok plain_lib (load_settings plain_lib (settings_rows ?a)) ''lightsOffTime''
              (PyStr ''22:00'')"
    by (simp_all add: ra time_ok_def load_settings_def get_setting_def parse_time_def lib_defs)
  have a: "snd (tick plain_lib ?a ?w) = Aborted ValueError"
    using tick_aborts_at_pumps[OF d(1) ta, of ValueError ?w] pump_on_abc by (simp add: ra)
  have b: "snd (tick plain_lib ?b ?w) = Aborted ValueError"
    using tick_aborts_at_lights[OF d(2), of plain_lib ValueError ?w] lights_on_noon
    by (simp add: rb)
  from a b pump_on_abc lights_on_noon show ?thesis by simp
qed

text \<open>
  Claim C3, amended. A key that is absent from the table reads as its hard-coded default,
  and the defaults of the numbers convert. A stored value is never replaced by the default:
  a value that neither \<^verbatim>\<open>float\<close> nor \<^verbatim>\<open>int\<close> accepts raises \<^verbatim>\<open>ValueError\<close> where a number
  is read, a value that \<^verbatim>\<open>strptime\<close> does not accept raises \<^verbatim>\<open>ValueError\<close> where a time
  is read, and a stored integer beyond the range of a float raises \<^verbatim>\<open>OverflowError\<close> where
  a number is read. A tick in which one of the conversions that it performs raises is
  aborted, with that kind of error.
\<close>

theorem settings_fallback:
  "(rows k = None \<longrightarrow> get_setting (load_settings L rows) k d = d)
   \<and> (app k = None \<longrightarrow>
        (n \<in> set [600, 900, 1800, 2700] \<longrightarrow>
           py_float L (get_setting app k (PyInt n)) = Inr (real_of_int n))
      \<and> py_float L (get_setting app k (PyFloat x)) = Inr x
      \<and> parse_time L (get_setting app k (PyStr s))
          = (case strptime_HM L s of Some t \<Rightarrow> Inr t | None \<Rightarrow> Inl ValueError))
   \<and> (rows k = Some v \<and> float_of_str L v = None \<and> int_of_str L v = None \<longrightarrow>
        py_float L (get_setting (load_settings L rows) k d) = Inl ValueError)
   \<and> (rows k = Some v \<and> strptime_HM L v = None \<longrightarrow>
        parse_time L (get_setting (load_settings L rows) k d) = Inl ValueError)
   \<and> (app k = Some (PyInt i) \<and> max_float_int \<le> \<bar>i\<bar> \<longrightarrow>
        py_float L (get_setting app k d) = Inl OverflowError)
   \<and> (\<not> db_load_fails e \<and> \<not> settings_parse L e \<longrightarrow>
        (\<exists>y. snd (tick L e w) = Aborted y \<and> (y = ValueError \<or> y = OverflowError)))"
proof (intro conjI impI)
  show "rows k = None \<Longrightarrow> get_setting (load_settings L rows) k d = d"
    by (simp add: load_settings_def get_setting_def)
next
  assume "app k = None" and "n \<in> set [600, 900, 1800, 2700]"
  then show "py_float L (get_setting app k (PyInt n)) = Inr (real_of_int n)"
    by (auto simp: get_setting_def py_float_def)
next
  assume "app k = None"
  then show "py_float L (get_setting app k (PyFloat x)) = Inr x"
    by (simp add: get_setting_def py_float_def)
next
  assume "app k = None"
  then show "parse_time L (get_setting app k (PyStr s))
          = (case strptime_HM L s of Some t \<Rightarrow> Inr t | None \<Rightarrow> Inl ValueError)"
    by (simp add: get_setting_def parse_time_def)
next
  assume "rows k = Some v \<and> float_of_str L v = None \<and> int_of_str L v = None"
  then show "py_float L (get_setting (load_settings L rows) k d) = Inl ValueError"
    by (simp add: load_settings_def get_setting_def convert_value_def py_float_def)
next
  assume "rows k = Some v \<and> strptime_HM L v = None"
  then show "parse_time L (get_setting (load_settings L rows) k d) = Inl ValueError"
    by (simp add: load_settings_def get_setting_def convert_value_def parse_time_def
          split: option.split)
next
  assume "app k = Some (PyInt i) \<and> max_float_int \<le> \<bar>i\<bar>"
  then show "py_float L (get_setting app k d) = Inl OverflowError"
    by (simp add: get_setting_def py_float_def)
next
  assume a: "\<not> db_load_fails e \<and> \<not> settings_parse L e"
  then have "snd (tick L e w) \<noteq> Completed" by (simp add: tick_completed_iff)
  then obtain y where y: "snd (tick L e w) = Aborted y" by (cases "snd (tick L e w)") auto
  from tick_aborted[OF y] a have "y = ValueError \<or> y = OverflowError" by simp
  with y show "\<exists>y. snd (tick L e w) = Aborted y \<and> (y = ValueError \<or> y = OverflowError)"
    by blast
qed


theorem settings_fallback_witness:
  "get_setting (load_settings plain_lib Map.empty) ''pumpOnDuration'' (PyInt 900) = PyInt 900
   \<and> py_float plain_lib (get_setting Map.empty ''pumpOnDuration'' (PyInt 900)) = Inr 900
   \<and> parse_time plain_lib (get_setting Map.empty ''lightsOnTime'' (PyStr ''06:00''))
       = Inr (6, 0, 0, 0)
   \<and> py_float plain_lib
       (get_setting (load_settings plain_lib [''pumpOnDuration'' \<mapsto> ''abc''])
          ''pumpOnDuration'' (PyInt 900)) = Inl ValueError
   \<and> parse_time plain_lib
       (get_setting (load_settings plain_lib [''lightsOnTime'' \<mapsto> ''noon''])
          ''lightsOnTime'' (PyStr ''06:00'')) = Inl ValueError
   \<and> py_float plain_lib
       (get_setting [''pumpOnDuration'' \<mapsto> PyInt max_float_int] ''pumpOnDuration'' (PyInt 900))
       = Inl OverflowError
   \<and> (\<exists>y. snd (tick plain_lib (example_env [''pumpOnDuration'' \<mapsto> ''abc''] 10)
                  (initial_world 0 0 0 Map.empty)) = Aborted y
          \<and> (y = ValueError \<or> y = OverflowError))"
proof -
  let ?a = "example_env [''pumpOnDuration'' \<mapsto> ''abc''] 10"
  let ?w = "initial_world 0 0 0 Map.empty"
  have s: "strptime_HM plain_lib ''06:00'' = Some (6, 0, 0, 0)"
    "float_of_str plain_lib ''abc'' = None" "int_of_str plain_lib ''abc'' = None"
    "strptime_HM plain_lib ''noon'' = None"
    by (simp_all add: lib_defs)
  have big: "max_float_int \<le> \<bar>max_float_int\<bar>" by simp
  have d: "\<not> db_load_fails ?a" by (simp add: example_env_def)
  have na: "\<not> settings_parse plain_lib ?a"
    using pump_on_abc by (simp add: settings_parse_def float_ok_def example_env_def)
  note t1 = settings_fallback[where L=plain_lib and rows=Map.empty and k="''pumpOnDuration''"
      and d="PyInt 900" and app=Map.empty and n=900]
  note t2 = settings_fallback[where L=plain_lib and app=Map.empty and k="''lightsOnTime''"
      and s="''06:00''"]
  note t3 = settings_fallback[where L=plain_lib and rows="[''pumpOnDuration'' \<mapsto> ''abc'']"
      and k="''pumpOnDuration''" and v="''abc''" and d="PyInt 900" and e="?a" and w="?w"]
  note t4 = settings_fallback[where L=plain_lib and rows="[''lightsOnTime'' \<mapsto> ''noon'']"
      and k="''lightsOnTime''" and v="''noon''" and d="PyStr ''06:00''"]
  note t5 = settings_fallback[where L=plain_lib
      and app="[''pumpOnDuration'' \<mapsto> PyInt max_float_int]"
      and k="''pumpOnDuration''" and i=max_float_int and d="PyInt 900"]
  have c1: "get_setting (load_settings plain_lib Map.empty) ''pumpOnDuration'' (PyInt 900)
              = PyInt 900"
    using t1[THEN conjunct1] by simp
  have c2: "py_float plain_lib (get_setting Map.empty ''pumpOnDuration'' (PyInt 900)) = Inr 900"
    using t1[THEN conjunct2, THEN conjunct1] by simp
  have c3': "parse_time plain_lib (get_setting Map.empty ''lightsOnTime'' (PyStr ''06:00''))
       = Inr (6, 0, 0, 0)"
    using t2[THEN conjunct2, THEN conjunct1] s(1) by simp
  have c4: "py_float plain_lib
       (get_setting (load_settings plain_lib [''pumpOnDuration'' \<mapsto> ''abc''])
          ''pumpOnDuration'' (PyInt 900)) = Inl ValueError"
    using t3[THEN conjunct2, THEN conjunct2, THEN conjunct1] s(2,3) by simp
  have c5: "parse_time plain_lib
       (get_setting (load_settings plain_lib [''lightsOnTime'' \<mapsto> ''noon''])
          ''lightsOnTime'' (PyStr ''06:00'')) = Inl ValueError"
    using t4[THEN conjunct2, THEN conjunct2, THEN conjunct2, THEN conjunct1] s(4) by simp
  have c6: "py_float plain_lib
       (get_setting [''pumpOnDuration'' \<mapsto> PyInt max_float_int] ''pumpOnDuration'' (PyInt 900))
       = Inl OverflowError"
    using t5[THEN conjunct2, THEN conjunct2, THEN conjunct2, THEN conjunct2, THEN conjunct1] big
    by simp
  have c7: "\<exists>y. snd (tick plain_lib ?a ?w) = Aborted y \<and> (y = ValueError \<or> y = OverflowError)"
    using t3[THEN conjunct2, THEN conjunct2, THEN conjunct2, THEN conjunct2, THEN conjunct2]
      d na by blast
  from c1 c2 c3' c4 c5 c6 c7 show ?thesis by blast
qed

end
